theory Spec2Isabelle
  imports Complex_Main "HOL-Library.Word" "HOL-Library.Log_Nat"
begin

unbundle bit_operations_syntax

section \<open>Primitive aliases (types.h, lines 1-13)\<close>

text \<open>
  The template names the host's fixed-width types. Integers are machine words; a value of
  type \<open>int\<close> (signed, 32 bits) is kept as its bit pattern and read with \<open>sint\<close>. A value
  of type \<open>f32\<close> or \<open>f16\<close> that comes from the file is kept as the bit pattern that was
  read.
\<close>

type_synonym u8 = "8 word"
type_synonym u16 = "16 word"
type_synonym u32 = "32 word"
type_synonym s32 = "32 word"
type_synonym f16 = "16 word"
type_synonym f32 = "32 word"

section \<open>Packed normal 11/11/10: the integer stage (types.h, lines 109-133)\<close>

text \<open>The constants of \<open>ReadNormal11_11_10\<close>, each defined as the source computes it.\<close>

definition FULL_WIDTH :: int where "FULL_WIDTH = 32"

definition X_POS :: int where "X_POS = 0"
definition X_WIDTH :: int where "X_WIDTH = 11"
definition X_LSHIFT :: int where "X_LSHIFT = FULL_WIDTH - X_POS - X_WIDTH"
definition X_RSHIFT :: int where "X_RSHIFT = FULL_WIDTH - X_WIDTH"
definition X_DOT :: int where "X_DOT = push_bit (nat (X_WIDTH - 1)) 1 - 1"

definition Y_POS :: int where "Y_POS = X_POS + X_WIDTH"
definition Y_WIDTH :: int where "Y_WIDTH = 11"
definition Y_LSHIFT :: int where "Y_LSHIFT = FULL_WIDTH - Y_POS - Y_WIDTH"
definition Y_RSHIFT :: int where "Y_RSHIFT = FULL_WIDTH - Y_WIDTH"
definition Y_DOT :: int where "Y_DOT = push_bit (nat (Y_WIDTH - 1)) 1 - 1"

definition Z_POS :: int where "Z_POS = Y_POS + Y_WIDTH"
definition Z_WIDTH :: int where "Z_WIDTH = 10"
definition Z_LSHIFT :: int where "Z_LSHIFT = FULL_WIDTH - Z_POS - Z_WIDTH"
definition Z_RSHIFT :: int where "Z_RSHIFT = FULL_WIDTH - Z_WIDTH"
definition Z_DOT :: int where "Z_DOT = push_bit (nat (Z_WIDTH - 1)) 1 - 1"

text \<open>
  \<open>int xInt = ((int)(packed << X_LSHIFT)) >> X_RSHIFT\<close>: the left shift is on the
  unsigned word and drops the bits that leave it, the cast reinterprets the 32 bits as
  signed, and the right shift of a signed value is arithmetic.
\<close>

definition xInt :: "u32 \<Rightarrow> s32" where
  "xInt packed = signed_drop_bit (nat X_RSHIFT) (push_bit (nat X_LSHIFT) packed)"

definition yInt :: "u32 \<Rightarrow> s32" where
  "yInt packed = signed_drop_bit (nat Y_RSHIFT) (push_bit (nat Y_LSHIFT) packed)"

definition zInt :: "u32 \<Rightarrow> s32" where
  "zInt packed = signed_drop_bit (nat Z_RSHIFT) (push_bit (nat Z_LSHIFT) packed)"

section \<open>The host tool: file, read cursor and faults\<close>

text \<open>
  Modelled from the spec: the host's byte stream, read cursor and fault reporting, which
  the template calls (\<open>FTell\<close>, \<open>FSeek\<close>, the reads that a field declaration performs)
  but does not define. The file is a list of bytes, the cursor a position in it. A read
  past the end of the file and a seek outside it are faults, and a fault ends the parse.
  The field \<open>seeks\<close> is a log of the targets of all seeks performed so far; nothing reads
  it, it only makes ``no seek occurs'' a statement about the state.
\<close>

datatype fault = StreamExhausted | InvalidSeek | UndefinedField | BadFormat | BufferOverflow

record host =
  data :: "u8 list"
  pos :: nat
  seeks :: "nat list"

type_synonym 'a reader = "host \<Rightarrow> fault + ('a \<times> host)"

definition ret :: "'a \<Rightarrow> 'a reader" where
  "ret a st = Inr (a, st)"

definition bind :: "'a reader \<Rightarrow> ('a \<Rightarrow> 'b reader) \<Rightarrow> 'b reader" where
  "bind m f st = (case m st of Inl e \<Rightarrow> Inl e | Inr (a, st') \<Rightarrow> f a st')"

definition read_bytes :: "nat \<Rightarrow> (u8 list) reader" where
  "read_bytes n st =
     (if pos st + n \<le> length (data st)
      then Inr (take n (drop (pos st) (data st)), st\<lparr>pos := pos st + n\<rparr>)
      else Inl StreamExhausted)"

text \<open>Fields are little-endian: the first byte read is the least significant.\<close>

fun le_word :: "u8 list \<Rightarrow> 'a::len word" where
  "le_word [] = 0"
| "le_word (b # bs) = ucast b OR push_bit 8 (le_word bs)"

definition read_u32 :: "u32 reader" where
  "read_u32 = bind (read_bytes 4) (\<lambda>bs. ret (le_word bs))"

definition read_f32 :: "f32 reader" where
  "read_f32 = bind (read_bytes 4) (\<lambda>bs. ret (le_word bs))"

definition read_f16 :: "f16 reader" where
  "read_f16 = bind (read_bytes 2) (\<lambda>bs. ret (le_word bs))"

definition FTell :: "host \<Rightarrow> nat" where
  "FTell st = pos st"

definition FSeek :: "nat \<Rightarrow> unit reader" where
  "FSeek p st =
     (if p \<le> length (data st)
      then Inr ((), st\<lparr>pos := p, seeks := seeks st @ [p]\<rparr>)
      else Inl InvalidSeek)"

text \<open>
  A field of type \<open>string\<close> reads bytes up to a zero byte and leaves the cursor after
  it; a string that runs into the end of the file exhausts the stream.
\<close>

definition read_string :: "string reader" where
  "read_string st =
     (let rest = drop (pos st) (data st); s = takeWhile (\<lambda>b. b \<noteq> 0) rest
      in if length s < length rest
         then Inr (map (\<lambda>b. char_of (unat b)) s, st\<lparr>pos := pos st + length s + 1\<rparr>)
         else Inl StreamExhausted)"

section \<open>Floating-point values\<close>

text \<open>
  Modelled from the spec: what the host's \<open>f32\<close> and \<open>f16\<close> denote and how its float
  arithmetic rounds, which the template uses but does not define. Both are IEEE 754
  binary formats. A value is a signed rational magnitude, an infinity or a NaN; the sign
  of a zero is kept, and so is the sign bit of an infinity and of a NaN.
\<close>

datatype fpval = Finite bool rat | Infinity bool | NaN bool

definition f32_val :: "f32 \<Rightarrow> fpval" where
  "f32_val w =
     (let s = bit w 31; e = unat (take_bit 8 (drop_bit 23 w)); m = unat (take_bit 23 w)
      in if e = 255 then (if m = 0 then Infinity s else NaN s)
         else if e = 0 then Finite s (of_nat m / 2 ^ 149)
         else if e < 150 then Finite s (of_nat (2 ^ 23 + m) / 2 ^ (150 - e))
         else Finite s (of_nat (2 ^ 23 + m) * 2 ^ (e - 150)))"

definition f16_val :: "f16 \<Rightarrow> fpval" where
  "f16_val w =
     (let s = bit w 15; e = unat (take_bit 5 (drop_bit 10 w)); m = unat (take_bit 10 w)
      in if e = 31 then (if m = 0 then Infinity s else NaN s)
         else if e = 0 then Finite s (of_nat m / 2 ^ 24)
         else if e < 25 then Finite s (of_nat (2 ^ 10 + m) / 2 ^ (25 - e))
         else Finite s (of_nat (2 ^ 10 + m) * 2 ^ (e - 25)))"

text \<open>The integer part of the binary logarithm of a positive rational.\<close>

definition ilog2 :: "rat \<Rightarrow> int" where
  "ilog2 q = (case quotient_of q of (n, d) \<Rightarrow>
      let k = bitlen n - bitlen d in if 2 powi k \<le> q then k else k - 1)"

definition round_half_even :: "rat \<Rightarrow> int" where
  "round_half_even r =
     (let f = \<lfloor>r\<rfloor>; d = r - of_int f
      in if d < 1 / 2 then f else if 1 / 2 < d then f + 1 else if even f then f else f + 1)"

text \<open>
  Rounding a magnitude to binary32, to nearest with ties to even: 24 significant bits,
  exponents from \<open>- 126\<close> (below it the spacing of the subnormal numbers), overflow to
  infinity.
\<close>

definition f32_round :: "bool \<Rightarrow> rat \<Rightarrow> fpval" where
  "f32_round s q =
     (if q = 0 then Finite s 0
      else let e = max (- 126) (ilog2 q);
               ulp = 2 powi (e - 23);
               v = of_int (round_half_even (q / ulp)) * ulp
           in if 2 ^ 128 \<le> v then Infinity s else Finite s v)"

text \<open>The cast \<open>(float)n\<close> of a signed integer.\<close>

definition f32_of_int :: "int \<Rightarrow> fpval" where
  "f32_of_int n = f32_round (n < 0) (of_int \<bar>n\<bar>)"

text \<open>
  Division of two floats, rounded once to binary32. A NaN operand is passed on with its
  sign. IEEE 754 leaves open the sign of the NaN that an invalid division (zero by zero,
  infinity by infinity) produces; the model takes the one with the sign bit set.
\<close>

fun f32_div :: "fpval \<Rightarrow> fpval \<Rightarrow> fpval" where
  "f32_div (NaN s) _ = NaN s"
| "f32_div _ (NaN t) = NaN t"
| "f32_div (Infinity _) (Infinity _) = NaN True"
| "f32_div (Infinity s) (Finite t _) = Infinity (s \<noteq> t)"
| "f32_div (Finite s _) (Infinity t) = Finite (s \<noteq> t) 0"
| "f32_div (Finite s a) (Finite t b) =
     (if b = 0 then (if a = 0 then NaN True else Infinity (s \<noteq> t))
      else f32_round (s \<noteq> t) (a / b))"

text \<open>The signed rational a finite value stands for.\<close>

fun fp_rat :: "fpval \<Rightarrow> rat" where
  "fp_rat (Finite s q) = (if s then - q else q)"
| "fp_rat _ = 0"

fun is_finite :: "fpval \<Rightarrow> bool" where
  "is_finite (Finite _ _) = True"
| "is_finite _ = False"

section \<open>Formatted output\<close>

text \<open>
  Modelled from the spec: the host's \<open>SPrintf\<close>, which every formatter of the template
  calls but which the template does not define. The conversion \<open>%.6f\<close> writes a sign
  when the value is negative, the decimal digits of the integer part, a point and
  exactly six decimals, rounded to nearest (ties to even); an infinity and a NaN have
  no digits and are written as in C, \<open>inf\<close> and \<open>nan\<close>, after a minus sign when the
  sign bit is set. No other conversion occurs in the template. The
  text is written into the caller's buffer of \<open>cap\<close> characters with a terminator; what
  the host does with a text that does not fit is not defined by the template, and the
  model stops there with \<open>BufferOverflow\<close>.
\<close>

definition digit_char :: "nat \<Rightarrow> char" where
  "digit_char d = ''0123456789'' ! (d mod 10)"

fun dec :: "nat \<Rightarrow> string" where
  "dec n = (if n < 10 then [digit_char n] else dec (n div 10) @ [digit_char (n mod 10)])"

declare dec.simps [simp del]

fun dec_pad :: "nat \<Rightarrow> nat \<Rightarrow> string" where
  "dec_pad 0 n = []"
| "dec_pad (Suc k) n = dec_pad k (n div 10) @ [digit_char (n mod 10)]"

definition fmt_6f :: "fpval \<Rightarrow> string" where
  "fmt_6f v = (case v of
      Finite s q \<Rightarrow>
        (let n = nat (round_half_even (q * 10 ^ 6))
         in (if s then ''-'' else '''') @ dec (n div 10 ^ 6) @ ''.'' @ dec_pad 6 (n mod 10 ^ 6))
    | Infinity s \<Rightarrow> (if s then ''-inf'' else ''inf'')
    | NaN s \<Rightarrow> (if s then ''-nan'' else ''nan''))"

fun format_text :: "string \<Rightarrow> fpval list \<Rightarrow> string option" where
  "format_text [] args = Some []"
| "format_text (c # cs) args =
     (if take 4 (c # cs) = ''%.6f''
      then (case args of
              [] \<Rightarrow> None
            | a # rest \<Rightarrow> map_option (\<lambda>t. fmt_6f a @ t) (format_text (drop 3 cs) rest))
      else map_option (\<lambda>t. c # t) (format_text cs args))"

definition SPrintf :: "nat \<Rightarrow> string \<Rightarrow> fpval list \<Rightarrow> fault + string" where
  "SPrintf cap fmt args =
     (case format_text fmt args of
        None \<Rightarrow> Inl BadFormat
      | Some t \<Rightarrow> if length t < cap then Inr t else Inl BufferOverflow)"

section \<open>The structs and their formatters (types.h, lines 15-105)\<close>

text \<open>
  A struct of the template is a program: declaring a variable of its type at the cursor
  reads the fields in the order of their declaration. The reader of each struct is that
  program; the \<open>read=\<close> function of each struct is its formatter.
\<close>

record Vector2 =
  X :: f32
  Y :: f32

definition read_Vector2 :: "Vector2 reader" where
  "read_Vector2 =
     bind read_f32 (\<lambda>x. bind read_f32 (\<lambda>y. ret \<lparr>Vector2.X = x, Y = y\<rparr>))"

definition Vector2ToString :: "Vector2 \<Rightarrow> fault + string" where
  "Vector2ToString v =
     SPrintf 255 ''[%.6f, %.6f]'' [f32_val (Vector2.X v), f32_val (Vector2.Y v)]"

record Vector2Half =
  X :: f16
  Y :: f16

definition read_Vector2Half :: "Vector2Half reader" where
  "read_Vector2Half =
     bind read_f16 (\<lambda>x. bind read_f16 (\<lambda>y. ret \<lparr>Vector2Half.X = x, Y = y\<rparr>))"

definition Vector2HalfToString :: "Vector2Half \<Rightarrow> fault + string" where
  "Vector2HalfToString v =
     SPrintf 255 ''[%.6f, %.6f]'' [f16_val (Vector2Half.X v), f16_val (Vector2Half.Y v)]"

record Vector3 =
  X :: f32
  Y :: f32
  Z :: f32

definition read_Vector3 :: "Vector3 reader" where
  "read_Vector3 =
     bind read_f32 (\<lambda>x. bind read_f32 (\<lambda>y. bind read_f32 (\<lambda>z.
       ret \<lparr>Vector3.X = x, Y = y, Z = z\<rparr>)))"

definition Vector3ToString :: "Vector3 \<Rightarrow> fault + string" where
  "Vector3ToString v =
     SPrintf 255 ''[%.6f, %.6f, %.6f]''
       [f32_val (Vector3.X v), f32_val (Vector3.Y v), f32_val (Vector3.Z v)]"

record Vector4 =
  X :: f32
  Y :: f32
  Z :: f32
  W :: f32

definition read_Vector4 :: "Vector4 reader" where
  "read_Vector4 =
     bind read_f32 (\<lambda>x. bind read_f32 (\<lambda>y. bind read_f32 (\<lambda>z. bind read_f32 (\<lambda>w.
       ret \<lparr>Vector4.X = x, Y = y, Z = z, W = w\<rparr>))))"

definition Vector4ToString :: "Vector4 \<Rightarrow> fault + string" where
  "Vector4ToString v =
     SPrintf 255 ''[%.6f, %.6f, %.6f, %.6f]''
       [f32_val (Vector4.X v), f32_val (Vector4.Y v), f32_val (Vector4.Z v),
        f32_val (Vector4.W v)]"

record BoundingBox =
  Min :: Vector3
  Max :: Vector3

definition read_BoundingBox :: "BoundingBox reader" where
  "read_BoundingBox =
     bind read_Vector3 (\<lambda>lo. bind read_Vector3 (\<lambda>hi. ret \<lparr>Min = lo, Max = hi\<rparr>))"

definition BoundingBoxToString :: "BoundingBox \<Rightarrow> fault + string" where
  "BoundingBoxToString v =
     SPrintf 255 ''[%.6f, %.6f, %.6f] [%.6f, %.6f, %.6f]''
       [f32_val (Vector3.X (Min v)), f32_val (Vector3.Y (Min v)), f32_val (Vector3.Z (Min v)),
        f32_val (Vector3.X (Max v)), f32_val (Vector3.Y (Max v)), f32_val (Vector3.Z (Max v))]"

record BoundingSphere =
  Center :: Vector3
  Radius :: f32

definition read_BoundingSphere :: "BoundingSphere reader" where
  "read_BoundingSphere =
     bind read_Vector3 (\<lambda>c. bind read_f32 (\<lambda>r. ret \<lparr>Center = c, Radius = r\<rparr>))"

definition BoundingSphereToString :: "BoundingSphere \<Rightarrow> fault + string" where
  "BoundingSphereToString v =
     SPrintf 255 ''[%.6f, %.6f, %.6f] %.6f''
       [f32_val (Vector3.X (Center v)), f32_val (Vector3.Y (Center v)),
        f32_val (Vector3.Z (Center v)), f32_val (Radius v)]"

section \<open>Packed normal 11/11/10: the float stage and the text (types.h, lines 102-143)\<close>

record Normal11_11_10ToString =
  Value :: u32

definition read_Normal11_11_10ToString :: "Normal11_11_10ToString reader" where
  "read_Normal11_11_10ToString = bind read_u32 (\<lambda>v. ret \<lparr>Normal11_11_10ToString.Value = v\<rparr>)"

text \<open>
  The three floats \<open>x\<close>, \<open>y\<close> and \<open>z\<close> of \<open>ReadNormal11_11_10\<close>, as functions of
  \<open>packed\<close>: \<open>f32 x = (float)xInt / (float)X_DOT\<close>.
\<close>

definition normal_x :: "u32 \<Rightarrow> fpval" where
  "normal_x packed = f32_div (f32_of_int (sint (xInt packed))) (f32_of_int X_DOT)"

definition normal_y :: "u32 \<Rightarrow> fpval" where
  "normal_y packed = f32_div (f32_of_int (sint (yInt packed))) (f32_of_int Y_DOT)"

definition normal_z :: "u32 \<Rightarrow> fpval" where
  "normal_z packed = f32_div (f32_of_int (sint (zInt packed))) (f32_of_int Z_DOT)"

definition ReadNormal11_11_10 :: "Normal11_11_10ToString \<Rightarrow> fault + string" where
  "ReadNormal11_11_10 v =
     (let packed = Normal11_11_10ToString.Value v
      in SPrintf 255 ''[%.6f, %.6f, %.6f]''
           [normal_x packed, normal_y packed, normal_z packed])"

section \<open>Offset-relative string (types.h, lines 145-162)\<close>

text \<open>
  \<open>Value\<close> is declared only inside the branch \<open>Offset != 0\<close>, so a record read with a
  zero offset has no such field. \<open>returnPos\<close> is declared \<open>u32\<close>, so the position that
  \<open>FTell\<close> returns is narrowed to 32 bits, and \<open>base + Offset\<close> is a sum of two \<open>u32\<close>.
\<close>

record StringOffset =
  Offset :: u32
  Value :: "string option"

definition read_StringOffset :: "u32 \<Rightarrow> StringOffset reader" where
  "read_StringOffset base =
     bind read_u32 (\<lambda>off.
       if off \<noteq> 0 then
         (\<lambda>st. let returnPos = (word_of_nat (FTell st) :: u32) in
            bind (FSeek (unat (base + off))) (\<lambda>_.
            bind read_string (\<lambda>text.
            bind (FSeek (unat returnPos)) (\<lambda>_.
            ret \<lparr>Offset = off, Value = Some text\<rparr>))) st)
       else ret \<lparr>Offset = off, Value = None\<rparr>)"

text \<open>Reading a field that the record does not have is a fault of the host.\<close>

definition StringOffsetToString :: "StringOffset \<Rightarrow> fault + string" where
  "StringOffsetToString v =
     (if Offset v = 0 then Inr ''''
      else case StringOffset.Value v of None \<Rightarrow> Inl UndefinedField | Some text \<Rightarrow> Inr text)"

section \<open>Vocabulary of the statements\<close>

text \<open>
  The bytes of a field that starts \<open>off\<close> bytes after the cursor and is \<open>n\<close> bytes wide,
  the zero-terminated text that starts at a position of the file, and whether a
  terminator follows that position.
\<close>

definition field_at :: "host \<Rightarrow> nat \<Rightarrow> nat \<Rightarrow> u8 list" where
  "field_at st off n = take n (drop (pos st + off) (data st))"

definition string_at :: "u8 list \<Rightarrow> nat \<Rightarrow> string" where
  "string_at bs p = map (\<lambda>b. char_of (unat b)) (takeWhile (\<lambda>b. b \<noteq> 0) (drop p bs))"

definition terminated_at :: "u8 list \<Rightarrow> nat \<Rightarrow> bool" where
  "terminated_at bs p = (0 \<in> set (drop p bs))"

text \<open>
  A text with exactly six decimals: an optional minus sign, at least one digit, a point
  and six digits, and nothing else.
\<close>

definition is_digit :: "char \<Rightarrow> bool" where
  "is_digit c = (c \<in> set ''0123456789'')"

definition six_decimals :: "string \<Rightarrow> bool" where
  "six_decimals t =
     (let u = (if take 1 t = ''-'' then drop 1 t else t);
          ip = takeWhile (\<lambda>c. c \<noteq> CHR ''.'') u;
          fr = drop (length ip + 1) u
      in ip \<noteq> [] \<and> list_all is_digit ip \<and> take 1 (drop (length ip) u) = ''.''
         \<and> length fr = 6 \<and> list_all is_digit fr)"

text \<open>
  The text of a bounding box as the spec words it: the three components of \<open>Min\<close> and
  the three of \<open>Max\<close>, each list in square brackets, separated by a space.
\<close>

definition box_text :: "BoundingBox \<Rightarrow> string" where
  "box_text v =
     ''['' @ fmt_6f (f32_val (Vector3.X (Min v))) @ '', '' @ fmt_6f (f32_val (Vector3.Y (Min v)))
       @ '', '' @ fmt_6f (f32_val (Vector3.Z (Min v)))
       @ ''] ['' @ fmt_6f (f32_val (Vector3.X (Max v))) @ '', '' @ fmt_6f (f32_val (Vector3.Y (Max v)))
       @ '', '' @ fmt_6f (f32_val (Vector3.Z (Max v))) @ '']''"

text \<open>
  A file of 4 GiB: zero bytes up to its last four bytes, which hold the offset 4.
\<close>

definition huge_file :: "u8 list" where
  "huge_file = replicate (2 ^ 32 - 4) 0 @ [4, 0, 0, 0]"

section \<open>Properties of the integer stage\<close>

lemmas normal_consts =
  FULL_WIDTH_def X_POS_def X_WIDTH_def X_LSHIFT_def X_RSHIFT_def X_DOT_def
  Y_POS_def Y_WIDTH_def Y_LSHIFT_def Y_RSHIFT_def Y_DOT_def
  Z_POS_def Z_WIDTH_def Z_LSHIFT_def Z_RSHIFT_def Z_DOT_def

lemma shift_amounts:
  "nat X_LSHIFT = 21" "nat X_RSHIFT = 21"
  "nat Y_LSHIFT = 10" "nat Y_RSHIFT = 21"
  "nat Z_LSHIFT = 0" "nat Z_RSHIFT = 22"
  by (simp_all add: normal_consts)

lemma sign_extend_x:
  "sint (signed_drop_bit 21 (push_bit 21 (w :: 32 word))) = signed_take_bit 10 (uint w)"
proof (rule bit_eqI)
  fix n :: nat
  have "n < 10 \<or> n = 10 \<or> 10 < n" by arith
  then show "bit (sint (signed_drop_bit 21 (push_bit 21 w))) n
      = bit (signed_take_bit 10 (uint w)) n"
    by (auto simp add: bit_simps min_def)
qed

lemma sign_extend_y:
  "sint (signed_drop_bit 21 (push_bit 10 (w :: 32 word)))
    = signed_take_bit 10 (drop_bit 11 (uint w))"
proof (rule bit_eqI)
  fix n :: nat
  have "n < 10 \<or> n = 10 \<or> 10 < n" by arith
  then show "bit (sint (signed_drop_bit 21 (push_bit 10 w))) n
      = bit (signed_take_bit 10 (drop_bit 11 (uint w))) n"
    by (auto simp add: bit_simps min_def)
qed

lemma sign_extend_z:
  "sint (signed_drop_bit 22 (push_bit 0 (w :: 32 word)))
    = signed_take_bit 9 (drop_bit 22 (uint w))"
proof (rule bit_eqI)
  fix n :: nat
  have "n < 9 \<or> n = 9 \<or> 9 < n" by arith
  then show "bit (sint (signed_drop_bit 22 (push_bit 0 w))) n
      = bit (signed_take_bit 9 (drop_bit 22 (uint w))) n"
    by (auto simp add: bit_simps min_def)
qed

lemma sint_xInt: "sint (xInt w) = signed_take_bit 10 (uint w)"
  by (simp only: xInt_def shift_amounts sign_extend_x)

lemma sint_yInt: "sint (yInt w) = signed_take_bit 10 (drop_bit 11 (uint w))"
  by (simp only: yInt_def shift_amounts sign_extend_y)

lemma sint_zInt: "sint (zInt w) = signed_take_bit 9 (drop_bit 22 (uint w))"
  by (simp only: zInt_def shift_amounts sign_extend_z)

lemma signed_take_bit_range:
  "- (2 ^ n) \<le> signed_take_bit n (k :: int) \<and> signed_take_bit n k \<le> 2 ^ n - 1"
  using signed_take_bit_int_greater_eq_minus_exp [of n k]
    signed_take_bit_int_less_exp [of n k] by simp

lemma xInt_range: "- 1024 \<le> sint (xInt w) \<and> sint (xInt w) \<le> 1023"
  using signed_take_bit_range [of 10 "uint w"] by (simp add: sint_xInt)

lemma yInt_range: "- 1024 \<le> sint (yInt w) \<and> sint (yInt w) \<le> 1023"
  using signed_take_bit_range [of 10 "drop_bit 11 (uint w)"] by (simp add: sint_yInt)

lemma zInt_range: "- 512 \<le> sint (zInt w) \<and> sint (zInt w) \<le> 511"
  using signed_take_bit_range [of 9 "drop_bit 22 (uint w)"] by (simp add: sint_zInt)

text \<open>
  Claim C1. For every 32-bit word, each of the three fields (X: width 11 at bit 0, Y:
  width 11 at bit 11, Z: width 10 at bit 22) is extracted as
  \<open>(int32)(word << (32 - P - W)) >> (32 - W)\<close>; the signed value of the result is the
  sign extension of the field's W bits (bit \<open>P + W - 1\<close> of the word is the sign), and it
  lies between \<open>- 2 ^ (W - 1)\<close> and \<open>2 ^ (W - 1) - 1\<close>.
\<close>

theorem C1_fields_sign_extended:
  "xInt w = signed_drop_bit (32 - 11) (push_bit (32 - 0 - 11) w)
   \<and> sint (xInt w) = signed_take_bit (11 - 1) (drop_bit 0 (uint w))
   \<and> - (2 ^ (11 - 1)) \<le> sint (xInt w) \<and> sint (xInt w) \<le> 2 ^ (11 - 1) - 1
   \<and> yInt w = signed_drop_bit (32 - 11) (push_bit (32 - 11 - 11) w)
   \<and> sint (yInt w) = signed_take_bit (11 - 1) (drop_bit 11 (uint w))
   \<and> - (2 ^ (11 - 1)) \<le> sint (yInt w) \<and> sint (yInt w) \<le> 2 ^ (11 - 1) - 1
   \<and> zInt w = signed_drop_bit (32 - 10) (push_bit (32 - 22 - 10) w)
   \<and> sint (zInt w) = signed_take_bit (10 - 1) (drop_bit 22 (uint w))
   \<and> - (2 ^ (10 - 1)) \<le> sint (zInt w) \<and> sint (zInt w) \<le> 2 ^ (10 - 1) - 1"
proof -
  have x1: "xInt w = signed_drop_bit (32 - 11) (push_bit (32 - 0 - 11) w)"
    by (simp add: xInt_def shift_amounts)
  have y1: "yInt w = signed_drop_bit (32 - 11) (push_bit (32 - 11 - 11) w)"
    by (simp add: yInt_def shift_amounts)
  have z1: "zInt w = signed_drop_bit (32 - 10) (push_bit (32 - 22 - 10) w)"
    by (simp add: zInt_def shift_amounts)
  have x2: "sint (xInt w) = signed_take_bit (11 - 1) (drop_bit 0 (uint w))"
    by (simp add: sint_xInt)
  have y2: "sint (yInt w) = signed_take_bit (11 - 1) (drop_bit 11 (uint w))"
    by (simp add: sint_yInt)
  have z2: "sint (zInt w) = signed_take_bit (10 - 1) (drop_bit 22 (uint w))"
    by (simp add: sint_zInt)
  have x3: "- (2 ^ (11 - 1)) \<le> sint (xInt w) \<and> sint (xInt w) \<le> 2 ^ (11 - 1) - 1"
    using xInt_range [of w] by simp
  have y3: "- (2 ^ (11 - 1)) \<le> sint (yInt w) \<and> sint (yInt w) \<le> 2 ^ (11 - 1) - 1"
    using yInt_range [of w] by simp
  have z3: "- (2 ^ (10 - 1)) \<le> sint (zInt w) \<and> sint (zInt w) \<le> 2 ^ (10 - 1) - 1"
    using zInt_range [of w] by simp
  from x1 x2 x3 y1 y2 y3 z1 z2 z3 show ?thesis by blast
qed

section \<open>Properties of rounding to binary32\<close>

lemma two_powi_diff: "(2::rat) powi (int a - int b) = 2 ^ a / 2 ^ b"
  by (simp add: power_int_diff)

lemma ilog2_bounds:
  assumes "0 < q"
  shows "2 powi (ilog2 q) \<le> q" and "q < 2 powi (ilog2 q + 1)"
proof -
  obtain n d where nd: "quotient_of q = (n, d)" by (cases "quotient_of q")
  have d: "0 < d" using quotient_of_denom_pos [OF nd] .
  have q: "q = of_int n / of_int d" using quotient_of_div [OF nd] .
  have n: "0 < n" using assms d q by (simp add: zero_less_divide_iff)
  define a where "a = nat (bitlen n)"
  define b where "b = nat (bitlen d)"
  have bl: "bitlen n = int a" "bitlen d = int b"
    by (simp_all add: a_def b_def bitlen_nonneg)
  have pred: "nat (int m - 1) = m - 1" for m by (cases m) simp_all
  from bitlen_bounds [OF n] have nb: "2 ^ (a - 1) \<le> n" "n < 2 ^ a"
    by (simp_all add: bl pred)
  from bitlen_bounds [OF d] have db: "2 ^ (b - 1) \<le> d" "d < 2 ^ b"
    by (simp_all add: bl pred)
  have a1: "1 \<le> a" using n nb(2) by (cases a) simp_all
  have b1: "1 \<le> b" using d db(2) by (cases b) simp_all
  have rn: "(2::rat) ^ (a - 1) \<le> of_int n" "(of_int n :: rat) < 2 ^ a"
    using nb by (simp_all flip: of_int_le_iff of_int_less_iff of_int_power add: of_int_le_iff of_int_less_iff)
  have rd: "(2::rat) ^ (b - 1) \<le> of_int d" "(of_int d :: rat) < 2 ^ b"
    using db by (simp_all flip: of_int_le_iff of_int_less_iff of_int_power add: of_int_le_iff of_int_less_iff)
  have up: "q < 2 powi (int a - int b + 1)"
  proof -
    have "q < 2 ^ a / 2 ^ (b - 1)"
      unfolding q using rn rd n d by (intro frac_less) simp_all
    also have "\<dots> = 2 powi (int a - int (b - 1))" by (simp add: two_powi_diff)
    also have "int a - int (b - 1) = int a - int b + 1" using b1 by simp
    finally show ?thesis .
  qed
  have lo: "2 powi (int a - int b - 1) \<le> q"
  proof -
    have "(2::rat) ^ (a - 1) / 2 ^ b \<le> of_int n / of_int d"
      using rn rd n d by (intro frac_le) simp_all
    moreover have "(2::rat) ^ (a - 1) / 2 ^ b = 2 powi (int (a - 1) - int b)"
      by (simp add: two_powi_diff)
    moreover have "int (a - 1) - int b = int a - int b - 1" using a1 by simp
    ultimately show ?thesis unfolding q by (simp only:)
  qed
  have il: "ilog2 q = (if 2 powi (int a - int b) \<le> q then int a - int b else int a - int b - 1)"
    by (simp add: ilog2_def nd bl Let_def)
  show "2 powi (ilog2 q) \<le> q" using lo by (simp add: il)
  show "q < 2 powi (ilog2 q + 1)" using up by (auto simp add: il not_le)
qed

lemma ilog2_unique:
  assumes "2 powi k \<le> q" "q < 2 powi (k + 1)"
  shows "ilog2 q = k"
proof -
  have "0 < (2::rat) powi k" by (rule zero_less_power_int) simp
  from this assms(1) have q: "0 < q" by (rule less_le_trans)
  have "(2::rat) powi k < 2 powi (ilog2 q + 1)"
    using assms(1) ilog2_bounds(2) [OF q] by simp
  then have a: "k < ilog2 q + 1"
    by (metis linorder_not_less power_int_increasing one_le_numeral)
  have "(2::rat) powi (ilog2 q) < 2 powi (k + 1)"
    using assms(2) ilog2_bounds(1) [OF q] by simp
  then have b: "ilog2 q < k + 1"
    by (metis linorder_not_less power_int_increasing one_le_numeral)
  from a b show ?thesis by simp
qed

lemma round_half_even_error: "\<bar>of_int (round_half_even r) - r\<bar> \<le> 1 / 2"
proof -
  have "of_int \<lfloor>r\<rfloor> \<le> r" "r < of_int \<lfloor>r\<rfloor> + 1" by linarith+
  then show ?thesis
    by (auto simp add: round_half_even_def Let_def abs_le_iff)
qed

lemma round_half_even_of_int [simp]: "round_half_even (of_int n) = n"
  by (simp add: round_half_even_def)

lemma round_half_even_nonneg: "0 \<le> r \<Longrightarrow> 0 \<le> round_half_even r"
  by (auto simp add: round_half_even_def Let_def intro: order_trans)

lemma two_powi_pos [simp]: "0 < (2::rat) powi k"
  by (rule zero_less_power_int) simp

lemma div_two_powi: "q / (2::rat) powi (k - 23) = q * 2 powi (23 - k)"
proof -
  have "(2::rat) powi (23 - k) = inverse (2 powi (k - 23))"
    using power_int_minus [of "2::rat" "k - 23"] by simp
  then show ?thesis by (simp add: divide_inverse)
qed

lemma f32_round_normal:
  assumes "2 powi k \<le> q" "q < 2 powi (k + 1)" "- 126 \<le> k"
  shows "f32_round s q =
    (let v = of_int (round_half_even (q * 2 powi (23 - k))) * 2 powi (k - 23)
     in if 2 ^ 128 \<le> v then Infinity s else Finite s v)"
proof -
  have "0 < q" using two_powi_pos [of k] assms(1) by (rule less_le_trans)
  moreover have "ilog2 q = k" using assms(1,2) by (rule ilog2_unique)
  moreover have "max (- 126) k = k" using assms(3) by simp
  ultimately show ?thesis
    by (simp add: f32_round_def Let_def div_two_powi)
qed

lemma f32_round_close:
  assumes "2 powi (- 126) \<le> q" "q < 2 ^ 127"
  shows "\<exists>v. f32_round s q = Finite s v \<and> \<bar>v - q\<bar> \<le> q / 2 ^ 24"
proof -
  have q: "0 < q" using two_powi_pos [of "- 126"] assms(1) by (rule less_le_trans)
  define k where "k = ilog2 q"
  have lo: "2 powi k \<le> q" and hi: "q < 2 powi (k + 1)"
    using ilog2_bounds [OF q] by (simp_all add: k_def)
  have "(2::rat) powi (- 126) < 2 powi (k + 1)" using assms(1) hi by (rule le_less_trans)
  then have k: "- 126 \<le> k"
    by (smt (verit) power_int_increasing one_le_numeral linorder_not_less)
  define ulp :: rat where "ulp = 2 powi (k - 23)"
  define m where "m = round_half_even (q / ulp)"
  have ulp: "0 < ulp" by (simp add: ulp_def)
  have "\<bar>of_int m - q / ulp\<bar> \<le> 1 / 2" unfolding m_def by (rule round_half_even_error)
  then have "\<bar>of_int m - q / ulp\<bar> * ulp \<le> 1 / 2 * ulp"
    using ulp by (intro mult_right_mono) simp_all
  moreover have "\<bar>of_int m - q / ulp\<bar> * ulp = \<bar>(of_int m - q / ulp) * ulp\<bar>"
    using ulp by (simp add: abs_mult)
  moreover have "(of_int m - q / ulp) * ulp = of_int m * ulp - q"
    using ulp by (simp add: left_diff_distrib)
  ultimately have err: "\<bar>of_int m * ulp - q\<bar> \<le> ulp / 2" by simp
  have "ulp = 2 powi k / 2 powi 23" unfolding ulp_def by (simp add: power_int_diff)
  then have "ulp / 2 = 2 powi k / 2 ^ 24" by simp
  also have "\<dots> \<le> q / 2 ^ 24" using lo by (simp add: divide_right_mono)
  finally have u: "ulp / 2 \<le> q / 2 ^ 24" .
  with err have close: "\<bar>of_int m * ulp - q\<bar> \<le> q / 2 ^ 24" by simp
  then have "of_int m * ulp \<le> q + q / 2 ^ 24" by linarith
  also have "\<dots> < 2 ^ 128" using assms(2) q by simp
  finally have fin: "\<not> 2 ^ 128 \<le> of_int m * ulp" by simp
  have "f32_round s q = Finite s (of_int m * ulp)"
    using fin by (simp add: f32_round_normal [OF lo hi k] m_def ulp_def div_two_powi Let_def)
  with close show ?thesis by blast
qed

lemma f32_of_int_exact:
  assumes "\<bar>n\<bar> < 2 ^ 24"
  shows "f32_of_int n = Finite (n < 0) (of_int \<bar>n\<bar>)"
proof (cases "n = 0")
  case True
  then show ?thesis by (simp add: f32_of_int_def f32_round_def)
next
  case False
  define q :: rat where "q = of_int \<bar>n\<bar>"
  have q1: "1 \<le> q" using False by (simp add: q_def flip: of_int_abs) 
  have q: "0 < q" using q1 by simp
  have q24: "q < 2 ^ 24" using assms by (simp add: q_def flip: of_int_abs of_int_power add: of_int_less_iff)
  define k where "k = ilog2 q"
  have lo: "2 powi k \<le> q" and hi: "q < 2 powi (k + 1)"
    using ilog2_bounds [OF q] by (simp_all add: k_def)
  have "(2::rat) powi 0 < 2 powi (k + 1)" using q1 hi by simp
  then have k0: "0 \<le> k"
    by (smt (verit) power_int_increasing one_le_numeral linorder_not_less)
  have "(2::rat) powi k < 2 powi 24" using lo q24 by simp
  then have k23: "k \<le> 23"
    by (smt (verit) power_int_increasing one_le_numeral linorder_not_less)
  define j where "j = nat (23 - k)"
  have j: "23 - k = int j" using k23 by (simp add: j_def)
  have kj: "k - 23 = - int j" using j by simp
  define M where "M = \<bar>n\<bar> * 2 ^ j"
  have "q * 2 powi (23 - k) = of_int M"
    by (simp add: j power_int_of_nat q_def M_def)
  then have r: "round_half_even (q * 2 powi (23 - k)) = M"
    by (simp only: round_half_even_of_int)
  have v: "of_int M * (2::rat) powi (k - 23) = q"
    by (simp add: kj power_int_minus q_def M_def)
  have k126: "- 126 \<le> k" using k0 by simp
  have "\<not> 2 ^ 128 \<le> q" using q24 by simp
  then have "f32_round (n < 0) q = Finite (n < 0) q"
    by (simp add: f32_round_normal [OF lo hi k126] r v Let_def)
  then show ?thesis by (simp only: f32_of_int_def q_def)
qed

lemma f32_div_ints:
  assumes "\<bar>a\<bar> < 2 ^ 24" "0 < b" "b < 2 ^ 24"
  shows "f32_div (f32_of_int a) (f32_of_int b) = f32_round (a < 0) (of_int \<bar>a\<bar> / of_int b)"
proof -
  have "f32_of_int b = Finite False (of_int b)"
    using f32_of_int_exact [of b] assms(2,3) by simp
  then show ?thesis
    using assms(2) by (simp add: f32_of_int_exact [OF assms(1)])
qed

section \<open>Properties of the packed-normal decoder\<close>

lemma dot_values: "X_DOT = 1023" "Y_DOT = 1023" "Z_DOT = 511"
  by (simp_all add: normal_consts)

lemma normal_component:
  assumes "\<bar>a\<bar> \<le> 1024" "b = 1023 \<or> b = 511"
  shows "\<exists>v. f32_div (f32_of_int a) (f32_of_int b) = Finite (a < 0) v
           \<and> \<bar>v - of_int \<bar>a\<bar> / of_int b\<bar> \<le> (of_int \<bar>a\<bar> / of_int b) / 2 ^ 24"
proof -
  have b: "0 < b" "b < 2 ^ 24" "b \<le> 1023" "511 \<le> b" using assms(2) by auto
  have a: "\<bar>a\<bar> < 2 ^ 24" using assms(1) by simp
  note d = f32_div_ints [OF a b(1,2)]
  show ?thesis
  proof (cases "a = 0")
    case True
    then show ?thesis using d by (simp add: f32_round_def)
  next
    case False
    define q :: rat where "q = of_int \<bar>a\<bar> / of_int b"
    have a1: "1 \<le> \<bar>a\<bar>" using False by simp
    have "1 / 1023 \<le> (of_int \<bar>a\<bar> :: rat) / of_int b"
      using a1 b by (intro frac_le) (simp_all flip: of_int_abs)
    moreover have "(2::rat) powi (- 126) \<le> 1 / 1023" by (simp add: power_int_minus)
    ultimately have lo: "2 powi (- 126) \<le> q" unfolding q_def by (rule order_trans [rotated])
    have "(of_int \<bar>a\<bar> :: rat) / of_int b \<le> 1024 / 511"
      using assms(1) b by (intro frac_le) (simp_all flip: of_int_abs)
    moreover have "(1024 :: rat) / 511 < 2 ^ 127" by simp
    ultimately have hi: "q < 2 ^ 127" unfolding q_def by (rule le_less_trans)
    from f32_round_close [OF lo hi, of "a < 0"] show ?thesis
      unfolding d q_def .
  qed
qed

lemma xInt_cong:
  assumes "\<And>i. i < 11 \<Longrightarrow> bit w1 i = bit w2 i"
  shows "xInt w1 = xInt w2"
  unfolding xInt_def shift_amounts
  by (rule bit_word_eqI) (auto simp add: bit_simps assms)

lemma yInt_cong:
  assumes "\<And>i. 11 \<le> i \<Longrightarrow> i < 22 \<Longrightarrow> bit w1 i = bit w2 i"
  shows "yInt w1 = yInt w2"
  unfolding yInt_def shift_amounts
  by (rule bit_word_eqI) (auto simp add: bit_simps assms)

lemma zInt_cong:
  assumes "\<And>i. 22 \<le> i \<Longrightarrow> i < 32 \<Longrightarrow> bit w1 i = bit w2 i"
  shows "zInt w1 = zInt w2"
  unfolding zInt_def shift_amounts
  by (rule bit_word_eqI) (auto simp add: bit_simps assms)

lemma normal_value:
  assumes "\<bar>a\<bar> \<le> 1024" "b = 1023 \<or> b = 511"
  shows "f32_div (f32_of_int a) (f32_of_int b) = f32_round (a < 0) (of_int \<bar>a\<bar> / of_int b)"
    and "is_finite (f32_div (f32_of_int a) (f32_of_int b))"
    and "\<bar>fp_rat (f32_div (f32_of_int a) (f32_of_int b)) - of_int a / of_int b\<bar>
          \<le> \<bar>of_int a / of_int b\<bar> / 2 ^ 24"
proof -
  have b: "0 < b" "b < 2 ^ 24" using assms(2) by auto
  have a: "\<bar>a\<bar> < 2 ^ 24" using assms(1) by simp
  show "f32_div (f32_of_int a) (f32_of_int b) = f32_round (a < 0) (of_int \<bar>a\<bar> / of_int b)"
    by (rule f32_div_ints [OF a b])
  from normal_component [OF assms] obtain v where
    r: "f32_div (f32_of_int a) (f32_of_int b) = Finite (a < 0) v"
    and v: "\<bar>v - of_int \<bar>a\<bar> / of_int b\<bar> \<le> (of_int \<bar>a\<bar> / of_int b) / 2 ^ 24"
    by blast
  show "is_finite (f32_div (f32_of_int a) (f32_of_int b))" by (simp add: r)
  have pos: "(0::rat) < of_int b" using b(1) by simp
  define A :: rat where "A = of_int \<bar>a\<bar> / of_int b"
  have "\<bar>(of_int a :: rat) / of_int b\<bar> = \<bar>of_int a\<bar> / \<bar>of_int b\<bar>" by (rule abs_divide)
  also have "\<bar>of_int b :: rat\<bar> = of_int b" using pos by (rule abs_of_pos)
  also have "\<bar>of_int a :: rat\<bar> = of_int \<bar>a\<bar>" by simp
  finally have absq: "\<bar>(of_int a :: rat) / of_int b\<bar> = A" by (simp only: A_def)
  have vA: "\<bar>v - A\<bar> \<le> A / 2 ^ 24" using v by (simp only: A_def)
  show "\<bar>fp_rat (f32_div (f32_of_int a) (f32_of_int b)) - of_int a / of_int b\<bar>
          \<le> \<bar>of_int a / of_int b\<bar> / 2 ^ 24"
  proof (cases "a < 0")
    case True
    then have "(of_int a :: rat) / of_int b = - A" by (simp add: A_def)
    moreover have "fp_rat (f32_div (f32_of_int a) (f32_of_int b)) = - v"
      using True by (simp add: r)
    ultimately show ?thesis unfolding absq using vA by (simp add: abs_minus_commute)
  next
    case False
    then have "(of_int a :: rat) / of_int b = A" by (simp add: A_def)
    moreover have "fp_rat (f32_div (f32_of_int a) (f32_of_int b)) = v"
      using False by (simp add: r)
    ultimately show ?thesis unfolding absq using vA by simp
  qed
qed

text \<open>
  Claim C2. For every 32-bit word, each output is the sign-extended field divided by
  \<open>2 ^ (W - 1) - 1\<close>: the divisors are 1023 for X and Y and 511 for Z. The division is
  a binary32 division of the two converted integers; both conversions are exact, so the
  output is the quotient \<open>field / divisor\<close> rounded once to binary32: it is finite and
  within a relative error of \<open>2 ^ - 24\<close> of the quotient.
\<close>

theorem C2_divisors:
  "X_DOT = 2 ^ (11 - 1) - 1 \<and> Y_DOT = 2 ^ (11 - 1) - 1 \<and> Z_DOT = 2 ^ (10 - 1) - 1
   \<and> normal_x w = f32_div (f32_of_int (sint (xInt w))) (f32_of_int 1023)
   \<and> normal_y w = f32_div (f32_of_int (sint (yInt w))) (f32_of_int 1023)
   \<and> normal_z w = f32_div (f32_of_int (sint (zInt w))) (f32_of_int 511)
   \<and> normal_x w = f32_round (sint (xInt w) < 0) (of_int \<bar>sint (xInt w)\<bar> / 1023)
   \<and> normal_y w = f32_round (sint (yInt w) < 0) (of_int \<bar>sint (yInt w)\<bar> / 1023)
   \<and> normal_z w = f32_round (sint (zInt w) < 0) (of_int \<bar>sint (zInt w)\<bar> / 511)
   \<and> is_finite (normal_x w) \<and> is_finite (normal_y w) \<and> is_finite (normal_z w)
   \<and> \<bar>fp_rat (normal_x w) - of_int (sint (xInt w)) / 1023\<bar>
        \<le> \<bar>of_int (sint (xInt w)) / 1023\<bar> / 2 ^ 24
   \<and> \<bar>fp_rat (normal_y w) - of_int (sint (yInt w)) / 1023\<bar>
        \<le> \<bar>of_int (sint (yInt w)) / 1023\<bar> / 2 ^ 24
   \<and> \<bar>fp_rat (normal_z w) - of_int (sint (zInt w)) / 511\<bar>
        \<le> \<bar>of_int (sint (zInt w)) / 511\<bar> / 2 ^ 24"
proof -
  have xa: "\<bar>sint (xInt w)\<bar> \<le> 1024" using xInt_range [of w] by linarith
  have ya: "\<bar>sint (yInt w)\<bar> \<le> 1024" using yInt_range [of w] by linarith
  have za: "\<bar>sint (zInt w)\<bar> \<le> 1024" using zInt_range [of w] by linarith
  have d: "X_DOT = 2 ^ (11 - 1) - 1" "Y_DOT = 2 ^ (11 - 1) - 1" "Z_DOT = 2 ^ (10 - 1) - 1"
    by (simp_all add: dot_values)
  have nx: "normal_x w = f32_div (f32_of_int (sint (xInt w))) (f32_of_int 1023)"
    and ny: "normal_y w = f32_div (f32_of_int (sint (yInt w))) (f32_of_int 1023)"
    and nz: "normal_z w = f32_div (f32_of_int (sint (zInt w))) (f32_of_int 511)"
    by (simp_all only: normal_x_def normal_y_def normal_z_def dot_values)
  have x1: "normal_x w = f32_round (sint (xInt w) < 0) (of_int \<bar>sint (xInt w)\<bar> / 1023)"
    using normal_value(1) [OF xa, of 1023] by (simp add: nx)
  have y1: "normal_y w = f32_round (sint (yInt w) < 0) (of_int \<bar>sint (yInt w)\<bar> / 1023)"
    using normal_value(1) [OF ya, of 1023] by (simp add: ny)
  have z1: "normal_z w = f32_round (sint (zInt w) < 0) (of_int \<bar>sint (zInt w)\<bar> / 511)"
    using normal_value(1) [OF za, of 511] by (simp add: nz)
  have x2: "is_finite (normal_x w)" using normal_value(2) [OF xa, of 1023] by (simp add: nx)
  have y2: "is_finite (normal_y w)" using normal_value(2) [OF ya, of 1023] by (simp add: ny)
  have z2: "is_finite (normal_z w)" using normal_value(2) [OF za, of 511] by (simp add: nz)
  have x3: "\<bar>fp_rat (normal_x w) - of_int (sint (xInt w)) / 1023\<bar>
        \<le> \<bar>of_int (sint (xInt w)) / 1023\<bar> / 2 ^ 24"
    using normal_value(3) [OF xa, of 1023] by (simp add: nx)
  have y3: "\<bar>fp_rat (normal_y w) - of_int (sint (yInt w)) / 1023\<bar>
        \<le> \<bar>of_int (sint (yInt w)) / 1023\<bar> / 2 ^ 24"
    using normal_value(3) [OF ya, of 1023] by (simp add: ny)
  have z3: "\<bar>fp_rat (normal_z w) - of_int (sint (zInt w)) / 511\<bar>
        \<le> \<bar>of_int (sint (zInt w)) / 511\<bar> / 2 ^ 24"
    using normal_value(3) [OF za, of 511] by (simp add: nz)
  from d nx ny nz x1 y1 z1 x2 y2 z2 x3 y3 z3 show ?thesis by blast
qed

lemma bits_of_take_bit:
  "take_bit n (w1 :: 32 word) = take_bit n w2 \<Longrightarrow> i < n \<Longrightarrow> bit w1 i = bit w2 i"
  by (metis bit_take_bit_iff)

lemma bits_of_field:
  assumes "take_bit n (drop_bit m (w1 :: 32 word)) = take_bit n (drop_bit m w2)"
    and "m \<le> i" "i < m + n"
  shows "bit w1 i = bit w2 i"
proof -
  have "bit (take_bit n (drop_bit m w1)) (i - m) = bit (take_bit n (drop_bit m w2)) (i - m)"
    by (simp only: assms(1))
  moreover have "i - m < n" using assms(2,3) by arith
  ultimately show ?thesis using assms(2) by (simp add: bit_simps)
qed

text \<open>
  Claim C10. Two words that agree on bits [0, 11) decode to the same x, two words that
  agree on bits [11, 22) to the same y, and two words that agree on bits [22, 32) to the
  same z. Agreement on a field is equality of the field's bits, \<open>take_bit W (drop_bit P w)\<close>.
\<close>

theorem C10_fields_independent:
  "(take_bit 11 w1 = take_bit 11 w2 \<longrightarrow> normal_x w1 = normal_x w2)
   \<and> (take_bit 11 (drop_bit 11 w1) = take_bit 11 (drop_bit 11 w2) \<longrightarrow> normal_y w1 = normal_y w2)
   \<and> (take_bit 10 (drop_bit 22 w1) = take_bit 10 (drop_bit 22 w2) \<longrightarrow> normal_z w1 = normal_z w2)"
proof (intro conjI impI)
  assume "take_bit 11 w1 = take_bit 11 w2"
  then have "xInt w1 = xInt w2"
    by (intro xInt_cong) (rule bits_of_take_bit)
  then show "normal_x w1 = normal_x w2" by (simp add: normal_x_def)
next
  assume "take_bit 11 (drop_bit 11 w1) = take_bit 11 (drop_bit 11 w2)"
  then have "yInt w1 = yInt w2"
    by (intro yInt_cong) (erule bits_of_field, simp_all)
  then show "normal_y w1 = normal_y w2" by (simp add: normal_y_def)
next
  assume "take_bit 10 (drop_bit 22 w1) = take_bit 10 (drop_bit 22 w2)"
  then have "zInt w1 = zInt w2"
    by (intro zInt_cong) (erule bits_of_field, simp_all)
  then show "normal_z w1 = normal_z w2" by (simp add: normal_z_def)
qed

theorem C10_fields_independent_witness:
  "take_bit 11 (0x12345678 :: 32 word) = take_bit 11 (0xFFFFFE78 :: 32 word)
   \<and> (0x12345678 :: 32 word) \<noteq> 0xFFFFFE78
   \<and> normal_x 0x12345678 = normal_x 0xFFFFFE78
   \<and> take_bit 11 (drop_bit 11 (0x12345678 :: 32 word)) = take_bit 11 (drop_bit 11 (0xFFF457FF :: 32 word))
   \<and> normal_y 0x12345678 = normal_y 0xFFF457FF
   \<and> take_bit 10 (drop_bit 22 (0x12345678 :: 32 word)) = take_bit 10 (drop_bit 22 (0x123FFFFF :: 32 word))
   \<and> normal_z 0x12345678 = normal_z 0x123FFFFF"
proof -
  have a: "take_bit 11 (0x12345678 :: 32 word) = take_bit 11 (0xFFFFFE78 :: 32 word)"
    by simp
  have b: "take_bit 11 (drop_bit 11 (0x12345678 :: 32 word)) = take_bit 11 (drop_bit 11 (0xFFF457FF :: 32 word))"
    by simp
  have c: "take_bit 10 (drop_bit 22 (0x12345678 :: 32 word)) = take_bit 10 (drop_bit 22 (0x123FFFFF :: 32 word))"
    by simp
  have d: "(0x12345678 :: 32 word) \<noteq> 0xFFFFFE78" by simp
  from a b c d
    C10_fields_independent [of "0x12345678" "0xFFFFFE78"]
    C10_fields_independent [of "0x12345678" "0xFFF457FF"]
    C10_fields_independent [of "0x12345678" "0x123FFFFF"]
  show ?thesis by blast
qed

section \<open>Properties of the formatted output\<close>

lemma dec_digit: "n < 10 \<Longrightarrow> dec n = [digit_char n]"
  by (simp add: dec.simps)

lemma dec_step: "10 \<le> n \<Longrightarrow> dec n = dec (n div 10) @ [digit_char (n mod 10)]"
  by (subst dec.simps) simp

lemma length_dec_pad [simp]: "length (dec_pad k n) = k"
  by (induction k arbitrary: n) simp_all

lemma dec_pad_6:
  "dec_pad 6 n = [digit_char (n div 100000 mod 10), digit_char (n div 10000 mod 10),
     digit_char (n div 1000 mod 10), digit_char (n div 100 mod 10),
     digit_char (n div 10 mod 10), digit_char (n mod 10)]"
proof -
  have six: "(6::nat) = Suc (Suc (Suc (Suc (Suc (Suc 0)))))" by simp
  show ?thesis by (subst six) (simp add: div_mult2_eq [symmetric])
qed

lemma round_half_even_upper: "of_int (round_half_even r) \<le> r + 1 / 2"
  using round_half_even_error [of r] by linarith

lemma fmt_6f_short:
  assumes "0 \<le> v" "v < 9"
  shows "length (fmt_6f (Finite s v)) \<le> 9"
proof -
  define r where "r = round_half_even (v * 1000000)"
  define n where "n = nat r"
  have "of_int r \<le> v * 1000000 + 1 / 2"
    unfolding r_def by (rule round_half_even_upper)
  also have "\<dots> < 9000001" using assms(2) by linarith
  finally have "(of_int r :: rat) < of_int 9000001" by simp
  then have "r < 9000001" by (simp only: of_int_less_iff)
  then have "n < 9000001" by (simp add: n_def)
  then have "n div 1000000 < 10" by arith
  then have "length (dec (n div 1000000)) = 1" by (simp add: dec_digit)
  then show ?thesis by (simp add: fmt_6f_def Let_def flip: n_def r_def)
qed

lemma format_text_3:
  "format_text ''[%.6f, %.6f, %.6f]'' [a, b, c]
     = Some (''['' @ fmt_6f a @ '', '' @ fmt_6f b @ '', '' @ fmt_6f c @ '']'')"
  by simp

lemma normal_component_small:
  assumes "\<bar>a\<bar> \<le> 1024" "b = 1023 \<or> b = 511"
  shows "\<exists>s v. f32_div (f32_of_int a) (f32_of_int b) = Finite s v \<and> 0 \<le> v \<and> v < 9"
proof -
  from normal_component [OF assms] obtain v where
    r: "f32_div (f32_of_int a) (f32_of_int b) = Finite (a < 0) v"
    and v: "\<bar>v - of_int \<bar>a\<bar> / of_int b\<bar> \<le> (of_int \<bar>a\<bar> / of_int b) / 2 ^ 24"
    by blast
  define q :: rat where "q = of_int \<bar>a\<bar> / of_int b"
  have b: "0 < b" "511 \<le> b" using assms(2) by auto
  have q0: "0 \<le> q" using b by (simp add: q_def)
  have "(of_int \<bar>a\<bar> :: rat) / of_int b \<le> 1024 / 511"
    using assms(1) b by (intro frac_le) (simp_all flip: of_int_abs)
  then have q3: "q \<le> 1024 / 511" by (simp only: q_def)
  from v have "\<bar>v - q\<bar> \<le> q / 2 ^ 24" by (simp only: q_def)
  then have vq: "\<bar>v - q\<bar> \<le> q / 16777216" by simp
  have "0 \<le> v" using vq q0 by linarith
  moreover have "v < 9" using vq q3 by linarith
  ultimately show ?thesis using r by blast
qed

lemma normal_small:
  "\<exists>s v. normal_x w = Finite s v \<and> 0 \<le> v \<and> v < 9"
  "\<exists>s v. normal_y w = Finite s v \<and> 0 \<le> v \<and> v < 9"
  "\<exists>s v. normal_z w = Finite s v \<and> 0 \<le> v \<and> v < 9"
proof -
  have xa: "\<bar>sint (xInt w)\<bar> \<le> 1024" using xInt_range [of w] by linarith
  have ya: "\<bar>sint (yInt w)\<bar> \<le> 1024" using yInt_range [of w] by linarith
  have za: "\<bar>sint (zInt w)\<bar> \<le> 1024" using zInt_range [of w] by linarith
  show "\<exists>s v. normal_x w = Finite s v \<and> 0 \<le> v \<and> v < 9"
    unfolding normal_x_def dot_values by (rule normal_component_small [OF xa]) simp
  show "\<exists>s v. normal_y w = Finite s v \<and> 0 \<le> v \<and> v < 9"
    unfolding normal_y_def dot_values by (rule normal_component_small [OF ya]) simp
  show "\<exists>s v. normal_z w = Finite s v \<and> 0 \<le> v \<and> v < 9"
    unfolding normal_z_def dot_values by (rule normal_component_small [OF za]) simp
qed

lemma ReadNormal11_11_10_eq:
  "ReadNormal11_11_10 v =
     Inr (''['' @ fmt_6f (normal_x (Normal11_11_10ToString.Value v))
          @ '', '' @ fmt_6f (normal_y (Normal11_11_10ToString.Value v))
          @ '', '' @ fmt_6f (normal_z (Normal11_11_10ToString.Value v)) @ '']'')"
proof -
  define w where "w = Normal11_11_10ToString.Value v"
  obtain sx vx where x: "normal_x w = Finite sx vx" "0 \<le> vx" "vx < 9"
    using normal_small(1) [of w] by blast
  obtain sy vy where y: "normal_y w = Finite sy vy" "0 \<le> vy" "vy < 9"
    using normal_small(2) [of w] by blast
  obtain sz vz where z: "normal_z w = Finite sz vz" "0 \<le> vz" "vz < 9"
    using normal_small(3) [of w] by blast
  have lx: "length (fmt_6f (normal_x w)) \<le> 9" unfolding x(1) using x(2,3) by (rule fmt_6f_short)
  have ly: "length (fmt_6f (normal_y w)) \<le> 9" unfolding y(1) using y(2,3) by (rule fmt_6f_short)
  have lz: "length (fmt_6f (normal_z w)) \<le> 9" unfolding z(1) using z(2,3) by (rule fmt_6f_short)
  show ?thesis
    using lx ly lz
    by (simp add: ReadNormal11_11_10_def SPrintf_def format_text_3 Let_def flip: w_def)
qed

lemma normal_finite:
  "is_finite (normal_x w)" "is_finite (normal_y w)" "is_finite (normal_z w)"
  using normal_small(1) [of w] normal_small(2) [of w] normal_small(3) [of w] by auto

text \<open>
  Claim C6. The packed-normal decoder is a function of the word alone, defined on every
  32-bit word: it takes no file state and returns none, the three floats are always
  finite numbers (no division by zero, no infinity, no NaN), and the formatter always
  returns its text, which always fits the 255-character buffer. The text is the one
  function of the word given here, so decoding a word again gives the same result.
\<close>

theorem C6_decoder_total:
  "ReadNormal11_11_10 v =
     Inr (''['' @ fmt_6f (normal_x (Normal11_11_10ToString.Value v))
          @ '', '' @ fmt_6f (normal_y (Normal11_11_10ToString.Value v))
          @ '', '' @ fmt_6f (normal_z (Normal11_11_10ToString.Value v)) @ '']'')
   \<and> is_finite (normal_x (Normal11_11_10ToString.Value v))
   \<and> is_finite (normal_y (Normal11_11_10ToString.Value v))
   \<and> is_finite (normal_z (Normal11_11_10ToString.Value v))"
  using ReadNormal11_11_10_eq [of v] normal_finite [of "Normal11_11_10ToString.Value v"]
  by blast

section \<open>Evaluation on concrete values\<close>

lemma floor_rat_numeral [simp]:
  "\<lfloor>numeral a / numeral b :: rat\<rfloor> = numeral a div numeral b"
  by (metis floor_divide_of_int_eq of_int_numeral)

lemma digit_chars [simp]:
  "digit_char 0 = CHR ''0''" "digit_char 1 = CHR ''1''" "digit_char 2 = CHR ''2''"
  "digit_char 3 = CHR ''3''" "digit_char 4 = CHR ''4''" "digit_char 5 = CHR ''5''"
  "digit_char 6 = CHR ''6''" "digit_char 7 = CHR ''7''" "digit_char 8 = CHR ''8''"
  "digit_char 9 = CHR ''9''" "digit_char (Suc 0) = CHR ''1''"
  by (simp_all add: digit_char_def)

lemma round_half_even_numerals [simp]:
  "round_half_even 0 = 0" "round_half_even 1 = 1" "round_half_even (numeral k) = numeral k"
  using round_half_even_of_int [of 0] round_half_even_of_int [of 1]
    round_half_even_of_int [of "numeral k"] by simp_all

lemma fmt_6f_finite:
  "round_half_even (q * 10 ^ 6) = int n \<Longrightarrow>
   fmt_6f (Finite s q)
     = (if s then ''-'' else '''') @ dec (n div 10 ^ 6) @ ''.'' @ dec_pad 6 (n mod 10 ^ 6)"
  by (simp add: fmt_6f_def)

lemma fmt_6f_zero: "fmt_6f (Finite False 0) = ''0.000000''"
  using fmt_6f_finite [of 0 0 False] by (simp add: dec_digit dec_pad_6)

lemma fmt_6f_one: "fmt_6f (Finite False 1) = ''1.000000''"
  using fmt_6f_finite [of 1 1000000 False] by (simp add: dec_digit dec_pad_6)

lemma fmt_6f_two: "fmt_6f (Finite False 2) = ''2.000000''"
  using fmt_6f_finite [of 2 2000000 False] by (simp add: dec_digit dec_pad_6)

lemma fmt_6f_min_code: "fmt_6f (Finite True (1049601 / 1048576)) = ''-1.000978''"
proof -
  have "round_half_even (1049601 / 1048576 * 10 ^ 6) = int 1000978"
    by (simp add: round_half_even_def Let_def)
  from fmt_6f_finite [OF this, of True] show ?thesis by (simp add: dec_digit dec_pad_6)
qed

lemma f32_round_one: "f32_round False (1023 / 1023) = Finite False 1"
  by code_simp

lemma f32_round_min_code: "f32_round True (1024 / 1023) = Finite True (1049601 / 1048576)"
  by code_simp

lemma xInt_of_field: "take_bit 11 w = take_bit 11 w' \<Longrightarrow> xInt w = xInt w'"
  by (intro xInt_cong) (rule bits_of_take_bit)

lemma normal_at_zero:
  "normal_x 0 = Finite False 0" "normal_y 0 = Finite False 0" "normal_z 0 = Finite False 0"
proof -
  have "sint (xInt 0) = 0" "sint (yInt 0) = 0" "sint (zInt 0) = 0"
    by (simp_all add: sint_xInt sint_yInt sint_zInt)
  then show "normal_x 0 = Finite False 0" "normal_y 0 = Finite False 0"
    "normal_z 0 = Finite False 0"
    using normal_value(1) [of 0 1023] normal_value(1) [of 0 511]
    by (simp_all add: normal_x_def normal_y_def normal_z_def dot_values f32_round_def)
qed

text \<open>
  Claim C3. The word 0 decodes to (0.0, 0.0, 0.0). A word whose X field is the largest
  positive code \<open>0x3FF\<close> has the field value 1023 and decodes to x = 1.0. A word whose X
  field is the most negative code \<open>0x400\<close> has the field value \<open>- 1024\<close> and decodes to
  the binary32 nearest to \<open>- 1024 / 1023\<close>, which is \<open>- 1049601 / 1048576\<close>: it lies
  below \<open>- 1\<close> (no clamping, no symmetric divisor) and prints as \<open>-1.000978\<close>.
\<close>

theorem C3_boundary_codes:
  "normal_x 0 = Finite False 0 \<and> normal_y 0 = Finite False 0 \<and> normal_z 0 = Finite False 0
   \<and> (take_bit 11 w = 0x3FF \<longrightarrow> sint (xInt w) = 1023 \<and> normal_x w = Finite False 1)
   \<and> (take_bit 11 w' = 0x400 \<longrightarrow>
        sint (xInt w') = - 1024
        \<and> normal_x w' = f32_round True (1024 / 1023)
        \<and> normal_x w' = Finite True (1049601 / 1048576)
        \<and> fp_rat (normal_x w') < - 1
        \<and> fmt_6f (normal_x w') = ''-1.000978'')"
proof (intro conjI impI)
  show "normal_x 0 = Finite False 0" "normal_y 0 = Finite False 0" "normal_z 0 = Finite False 0"
    by (rule normal_at_zero)+
next
  assume "take_bit 11 w = 0x3FF"
  then have "take_bit 11 w = take_bit 11 (0x3FF :: 32 word)" by simp
  then have "xInt w = xInt 0x3FF" by (rule xInt_of_field)
  then show x: "sint (xInt w) = 1023" by (simp add: sint_xInt)
  show "normal_x w = Finite False 1"
    using normal_value(1) [of 1023 1023] f32_round_one
    by (simp add: normal_x_def dot_values x)
next
  assume "take_bit 11 w' = 0x400"
  then have "take_bit 11 w' = take_bit 11 (0x400 :: 32 word)" by simp
  then have "xInt w' = xInt 0x400" by (rule xInt_of_field)
  then show x: "sint (xInt w') = - 1024" by (simp add: sint_xInt)
  show r: "normal_x w' = f32_round True (1024 / 1023)"
    using normal_value(1) [of "- 1024" 1023]
    by (simp add: normal_x_def dot_values x)
  then show v: "normal_x w' = Finite True (1049601 / 1048576)"
    by (simp only: f32_round_min_code)
  show "fp_rat (normal_x w') < - 1" by (simp add: v)
  show "fmt_6f (normal_x w') = ''-1.000978''" by (simp only: v fmt_6f_min_code)
qed

theorem C3_boundary_codes_witness:
  "take_bit 11 (0xABCDE3FF :: 32 word) = 0x3FF \<and> normal_x 0xABCDE3FF = Finite False 1
   \<and> take_bit 11 (0xABCDE400 :: 32 word) = 0x400
   \<and> normal_x 0xABCDE400 = Finite True (1049601 / 1048576)
   \<and> fmt_6f (normal_x 0xABCDE400) = ''-1.000978''"
proof -
  have a: "take_bit 11 (0xABCDE3FF :: 32 word) = 0x3FF" by simp
  have b: "take_bit 11 (0xABCDE400 :: 32 word) = 0x400" by simp
  from a b C3_boundary_codes [of "0xABCDE3FF" "0xABCDE400"] show ?thesis by blast
qed

section \<open>Properties of the host's reads\<close>

lemma read_u32_eq:
  "read_u32 st = (if pos st + 4 \<le> length (data st)
     then Inr (le_word (field_at st 0 4), st\<lparr>pos := pos st + 4\<rparr>)
     else Inl StreamExhausted)"
  by (simp add: read_u32_def bind_def ret_def read_bytes_def field_at_def)

lemma read_f32_eq:
  "read_f32 st = (if pos st + 4 \<le> length (data st)
     then Inr (le_word (field_at st 0 4), st\<lparr>pos := pos st + 4\<rparr>)
     else Inl StreamExhausted)"
  by (simp add: read_f32_def bind_def ret_def read_bytes_def field_at_def)

lemma read_f16_eq:
  "read_f16 st = (if pos st + 2 \<le> length (data st)
     then Inr (le_word (field_at st 0 2), st\<lparr>pos := pos st + 2\<rparr>)
     else Inl StreamExhausted)"
  by (simp add: read_f16_def bind_def ret_def read_bytes_def field_at_def)

lemma takeWhile_short: "length (takeWhile P xs) < length xs \<longleftrightarrow> (\<exists>x\<in>set xs. \<not> P x)"
  by (induction xs) auto

lemma read_string_eq:
  "read_string st = (if terminated_at (data st) (pos st)
     then Inr (string_at (data st) (pos st),
               st\<lparr>pos := pos st + length (string_at (data st) (pos st)) + 1\<rparr>)
     else Inl StreamExhausted)"
  by (auto simp add: read_string_def Let_def takeWhile_short terminated_at_def string_at_def)

lemma unat_return_pos: "unat (word_of_nat n + 4 :: u32) = (n + 4) mod 2 ^ 32"
  using unat_of_nat [of "n + 4", where 'a = 32] by simp

lemma read_StringOffset_eq:
  "read_StringOffset base st =
     (if \<not> pos st + 4 \<le> length (data st) then Inl StreamExhausted
      else let off = le_word (field_at st 0 4) :: u32; t = unat (base + off) in
        if off = 0 then Inr (\<lparr>Offset = 0, Value = None\<rparr>, st\<lparr>pos := pos st + 4\<rparr>)
        else if \<not> t \<le> length (data st) then Inl InvalidSeek
        else if \<not> terminated_at (data st) t then Inl StreamExhausted
        else Inr (\<lparr>Offset = off, Value = Some (string_at (data st) t)\<rparr>,
                  st\<lparr>pos := (pos st + 4) mod 2 ^ 32,
                     seeks := seeks st @ [t, (pos st + 4) mod 2 ^ 32]\<rparr>))"
proof -
  have le: "(pos st + 4) mod 2 ^ 32 \<le> length (data st)" if "pos st + 4 \<le> length (data st)"
    using that mod_less_eq_dividend [of "pos st + 4" "2 ^ 32"] by (rule order_trans [rotated])
  show ?thesis
    using le
    by (simp add: read_StringOffset_def bind_def ret_def read_u32_eq FSeek_def FTell_def
        read_string_eq unat_return_pos Let_def)
qed

section \<open>The offset-relative string\<close>

text \<open>
  Claim C5. A record whose offset field reads as 0 is decoded by that read alone: the
  result has no \<open>Value\<close> field, the state differs from the start state only in the
  cursor, which is 4 bytes further, and so the log of seeks is unchanged.
\<close>

theorem C5_zero_offset:
  assumes "pos st + 4 \<le> length (data st)"
    and "le_word (field_at st 0 4) = (0 :: u32)"
  shows "read_StringOffset base st
           = Inr (\<lparr>Offset = 0, Value = None\<rparr>, st\<lparr>pos := pos st + 4\<rparr>)
         \<and> seeks (st\<lparr>pos := pos st + 4\<rparr>) = seeks st
         \<and> pos (st\<lparr>pos := pos st + 4\<rparr>) = pos st + 4"
  using assms by (simp add: read_StringOffset_eq)

theorem C5_zero_offset_witness:
  "pos \<lparr>data = [0, 0, 0, 0, 9, 9], pos = 0, seeks = []\<rparr> + 4
     \<le> length (data \<lparr>data = [0, 0, 0, 0, 9, 9], pos = 0, seeks = []\<rparr>)
   \<and> le_word (field_at \<lparr>data = [0, 0, 0, 0, 9, 9], pos = 0, seeks = []\<rparr> 0 4) = (0 :: u32)
   \<and> read_StringOffset 7 \<lparr>data = [0, 0, 0, 0, 9, 9], pos = 0, seeks = []\<rparr>
       = Inr (\<lparr>Offset = 0, Value = None\<rparr>, \<lparr>data = [0, 0, 0, 0, 9, 9], pos = 4, seeks = []\<rparr>)"
  using C5_zero_offset [of "\<lparr>data = [0, 0, 0, 0, 9, 9], pos = 0, seeks = []\<rparr>" 7]
  by (simp add: field_at_def)

text \<open>
  Claim C4, as amended. A record whose offset field reads as \<open>off \<noteq> 0\<close>, at a start
  position with \<open>S + 4 < 2 ^ 32\<close>, where the target \<open>base + off\<close> (a sum of two \<open>u32\<close>,
  so taken modulo \<open>2 ^ 32\<close>) lies in the file and a terminated text starts there: the
  reader seeks to the target, reads the text there, seeks back to \<open>S + 4\<close>, and ends with
  the cursor at \<open>S + 4\<close>, wherever the text was.
\<close>

theorem C4_cursor_restored:
  assumes "pos st + 4 \<le> length (data st)"
    and "off = le_word (field_at st 0 4)"
    and "off \<noteq> 0"
    and "unat (base + off) \<le> length (data st)"
    and "terminated_at (data st) (unat (base + off))"
    and "pos st + 4 < 2 ^ 32"
  shows "read_StringOffset base st
           = Inr (\<lparr>Offset = off, Value = Some (string_at (data st) (unat (base + off)))\<rparr>,
                  st\<lparr>pos := pos st + 4,
                     seeks := seeks st @ [unat (base + off), pos st + 4]\<rparr>)"
  using assms by (simp add: read_StringOffset_eq Let_def)

theorem C4_cursor_restored_witness:
  "read_StringOffset 1 \<lparr>data = [9, 4, 0, 0, 0, 65, 66, 0, 7], pos = 1, seeks = []\<rparr>
     = Inr (\<lparr>Offset = 4, Value = Some ''AB''\<rparr>,
            \<lparr>data = [9, 4, 0, 0, 0, 65, 66, 0, 7], pos = 5, seeks = [5, 5]\<rparr>)"
  using C4_cursor_restored
    [of "\<lparr>data = [9, 4, 0, 0, 0, 65, 66, 0, 7], pos = 1, seeks = []\<rparr>" 4 1]
  by (simp add: field_at_def terminated_at_def string_at_def char_of_def bit_iff_odd)

text \<open>
  The claim as stated fails in two ways. With base \<open>0xFFFFFFFF\<close> and offset 2 the sum
  wraps and the reader seeks to position 1, not to \<open>base + offset\<close>. In a file of 4 GiB,
  a record at \<open>S = 2 ^ 32 - 4\<close> leaves the cursor at 0, not at \<open>S + 4\<close>: the position
  saved in the \<open>u32\<close> \<open>returnPos\<close> has lost its high bits.
\<close>

theorem C4_counterexample:
  "read_StringOffset 0xFFFFFFFF \<lparr>data = [2, 0, 0, 0, 0], pos = 0, seeks = []\<rparr>
     = Inr (\<lparr>Offset = 2, Value = Some ''''\<rparr>, \<lparr>data = [2, 0, 0, 0, 0], pos = 4, seeks = [1, 4]\<rparr>)
   \<and> (1 :: nat) \<noteq> 0xFFFFFFFF + 2
   \<and> read_StringOffset 0 \<lparr>data = huge_file, pos = 2 ^ 32 - 4, seeks = []\<rparr>
     = Inr (\<lparr>Offset = 4, Value = Some ''''\<rparr>, \<lparr>data = huge_file, pos = 0, seeks = [4, 0]\<rparr>)
   \<and> (0 :: nat) \<noteq> (2 ^ 32 - 4) + 4"
  by (simp add: read_StringOffset_eq field_at_def terminated_at_def string_at_def huge_file_def)

text \<open>
  Claim C9, as amended. The formatter returns the empty text when the offset is 0, and
  for a record that was read with a nonzero offset it returns the text that was read
  at \<open>base + Offset\<close>, unchanged. That text may itself be empty, so an empty result does
  not tell that the offset is 0.
\<close>

theorem C9_to_string:
  "(Offset v = 0 \<longrightarrow> StringOffsetToString v = Inr '''')
   \<and> (read_StringOffset base st = Inr (v, st') \<and> Offset v \<noteq> 0 \<longrightarrow>
        StringOffset.Value v = Some (string_at (data st) (unat (base + Offset v)))
        \<and> StringOffsetToString v = Inr (string_at (data st) (unat (base + Offset v))))"
proof (intro conjI impI)
  assume "Offset v = 0"
  then show "StringOffsetToString v = Inr ''''" by (simp add: StringOffsetToString_def)
next
  assume a: "read_StringOffset base st = Inr (v, st') \<and> Offset v \<noteq> 0"
  then show val: "StringOffset.Value v = Some (string_at (data st) (unat (base + Offset v)))"
    by (auto simp add: read_StringOffset_eq Let_def split: if_splits)
  from a show "StringOffsetToString v = Inr (string_at (data st) (unat (base + Offset v)))"
    by (simp add: StringOffsetToString_def val)
qed

theorem C9_to_string_witness:
  "StringOffsetToString \<lparr>Offset = 0, Value = None\<rparr> = Inr ''''
   \<and> read_StringOffset 1 \<lparr>data = [9, 4, 0, 0, 0, 65, 66, 0, 7], pos = 1, seeks = []\<rparr>
       = Inr (\<lparr>Offset = 4, Value = Some ''AB''\<rparr>,
              \<lparr>data = [9, 4, 0, 0, 0, 65, 66, 0, 7], pos = 5, seeks = [5, 5]\<rparr>)
   \<and> StringOffsetToString \<lparr>Offset = 4, Value = Some ''AB''\<rparr> = Inr ''AB''"
proof -
  have r: "read_StringOffset 1 \<lparr>data = [9, 4, 0, 0, 0, 65, 66, 0, 7], pos = 1, seeks = []\<rparr>
       = Inr (\<lparr>Offset = 4, Value = Some ''AB''\<rparr>,
              \<lparr>data = [9, 4, 0, 0, 0, 65, 66, 0, 7], pos = 5, seeks = [5, 5]\<rparr>)"
    by (simp add: read_StringOffset_eq field_at_def terminated_at_def string_at_def
        char_of_def bit_iff_odd)
  have s: "string_at [9, 4, 0, 0, 0, 65, 66, 0, 7] 5 = ''AB''"
    by (simp add: string_at_def char_of_def bit_iff_odd)
  from r s
    C9_to_string [of "\<lparr>Offset = 0, Value = None\<rparr>"]
    C9_to_string [of "\<lparr>Offset = 4, Value = Some ''AB''\<rparr>" 1
      "\<lparr>data = [9, 4, 0, 0, 0, 65, 66, 0, 7], pos = 1, seeks = []\<rparr>"
      "\<lparr>data = [9, 4, 0, 0, 0, 65, 66, 0, 7], pos = 5, seeks = [5, 5]\<rparr>"]
  show ?thesis by simp
qed

text \<open>
  The claim as stated fails where the referenced text is empty: the offset is 4, not 0,
  and the formatter still returns the empty text.
\<close>

theorem C9_counterexample:
  "read_StringOffset 0 \<lparr>data = [4, 0, 0, 0, 0], pos = 0, seeks = []\<rparr>
     = Inr (\<lparr>Offset = 4, Value = Some ''''\<rparr>, \<lparr>data = [4, 0, 0, 0, 0], pos = 4, seeks = [4, 4]\<rparr>)
   \<and> StringOffsetToString \<lparr>Offset = 4, Value = Some ''''\<rparr> = Inr ''''
   \<and> Offset \<lparr>Offset = 4, Value = Some ''''\<rparr> \<noteq> 0"
  by (simp add: read_StringOffset_eq field_at_def terminated_at_def string_at_def
      StringOffsetToString_def)

section \<open>Properties of the \<open>%.6f\<close> conversion\<close>

lemma is_digit_digit_char [simp]: "is_digit (digit_char d)"
proof -
  have "d mod 10 < length ''0123456789''" by simp
  then have "''0123456789'' ! (d mod 10) \<in> set ''0123456789''" by (rule nth_mem)
  then show ?thesis by (simp only: is_digit_def digit_char_def)
qed

lemma is_digit_not_point: "is_digit c \<Longrightarrow> c \<noteq> CHR ''.''"
  by (auto simp add: is_digit_def)

lemma is_digit_not_minus: "is_digit c \<Longrightarrow> c \<noteq> CHR ''-''"
  by (auto simp add: is_digit_def)

lemma dec_digits: "list_all is_digit (dec n)"
  by (induction n rule: dec.induct) (subst dec.simps, simp)

lemma dec_nonempty: "dec n \<noteq> []"
  by (subst dec.simps) simp

lemma dec_pad_digits: "list_all is_digit (dec_pad k n)"
  by (induction k arbitrary: n) simp_all

lemma length_dec: "n < 10 ^ k \<Longrightarrow> 0 < k \<Longrightarrow> length (dec n) \<le> k"
proof (induction n arbitrary: k rule: dec.induct)
  case (1 n)
  show ?case
  proof (cases "n < 10")
    case True
    then show ?thesis using "1.prems" by (simp add: dec_digit)
  next
    case False
    obtain j where k: "k = Suc j" using "1.prems"(2) by (cases k) simp_all
    have j: "0 < j" using False "1.prems"(1) k by (cases j) simp_all
    have "n div 10 < 10 ^ j" using "1.prems"(1) k by (simp add: less_mult_imp_div_less mult.commute)
    from "1.IH" [OF False this j] show ?thesis using False k by (simp add: dec_step)
  qed
qed

lemma takeWhile_digits_point:
  assumes "list_all is_digit ip"
  shows "takeWhile (\<lambda>c. c \<noteq> CHR ''.'') (ip @ CHR ''.'' # fr) = ip"
proof -
  have "\<And>c. c \<in> set ip \<Longrightarrow> c \<noteq> CHR ''.''"
    using assms by (auto simp add: list_all_iff dest: is_digit_not_point)
  then have "takeWhile (\<lambda>c. c \<noteq> CHR ''.'') (ip @ CHR ''.'' # fr)
      = ip @ takeWhile (\<lambda>c. c \<noteq> CHR ''.'') (CHR ''.'' # fr)"
    by (rule takeWhile_append2)
  then show ?thesis by simp
qed

lemma six_decimals_unsigned:
  assumes "ip \<noteq> []" "list_all is_digit ip" "length fr = 6" "list_all is_digit fr"
  shows "six_decimals (ip @ ''.'' @ fr)"
proof -
  obtain c cs where ip: "ip = c # cs" using assms(1) by (cases ip) simp_all
  have "is_digit c" using assms(2) ip by simp
  then have "c \<noteq> CHR ''-''" by (rule is_digit_not_minus)
  then have "take 1 (ip @ ''.'' @ fr) \<noteq> ''-''" by (simp add: ip)
  then show ?thesis
    using assms by (simp add: six_decimals_def takeWhile_digits_point)
qed

lemma six_decimals_signed:
  assumes "ip \<noteq> []" "list_all is_digit ip" "length fr = 6" "list_all is_digit fr"
  shows "six_decimals (''-'' @ ip @ ''.'' @ fr)"
  using assms by (simp add: six_decimals_def takeWhile_digits_point)

lemma six_decimals_fmt_6f: "six_decimals (fmt_6f (Finite s q))"
proof -
  define n where "n = nat (round_half_even (q * 10 ^ 6))"
  have f: "fmt_6f (Finite s q)
      = (if s then ''-'' else '''') @ dec (n div 10 ^ 6) @ ''.'' @ dec_pad 6 (n mod 10 ^ 6)"
    by (simp add: fmt_6f_def Let_def n_def)
  show ?thesis
  proof (cases s)
    case True
    have "six_decimals (''-'' @ dec (n div 10 ^ 6) @ ''.'' @ dec_pad 6 (n mod 10 ^ 6))"
      by (rule six_decimals_signed) (simp_all add: dec_nonempty dec_digits dec_pad_digits)
    then show ?thesis unfolding f using True by simp
  next
    case False
    have "six_decimals (dec (n div 10 ^ 6) @ ''.'' @ dec_pad 6 (n mod 10 ^ 6))"
      by (rule six_decimals_unsigned) (simp_all add: dec_nonempty dec_digits dec_pad_digits)
    then show ?thesis unfolding f using False by simp
  qed
qed

lemma length_fmt_6f_finite:
  assumes "0 \<le> q" "q < 2 ^ 128"
  shows "length (fmt_6f (Finite s q)) \<le> 47"
proof -
  define r where "r = round_half_even (q * 1000000)"
  define n where "n = nat r"
  have "of_int r \<le> q * 1000000 + 1 / 2"
    unfolding r_def by (rule round_half_even_upper)
  also have "\<dots> < 340282366920938463463374607431768211456 * 1000000 + 1"
    using assms(2) by simp
  finally have "(of_int r :: rat) < of_int (340282366920938463463374607431768211456 * 1000000 + 1)"
    by simp
  then have "r < 340282366920938463463374607431768211456 * 1000000 + 1"
    by (simp only: of_int_less_iff)
  then have "n < 340282366920938463463374607431768211456 * 1000000 + 1" by (simp add: n_def)
  then have "n div 1000000 < 10 ^ 39" by simp
  then have "length (dec (n div 1000000)) \<le> 39" by (rule length_dec) simp
  then have "length ((if s then ''-'' else '''') @ dec (n div 1000000) @ ''.''
      @ dec_pad 6 (n mod 1000000)) \<le> 47" by simp
  then show ?thesis by (simp add: fmt_6f_def Let_def flip: n_def r_def)
qed

lemma unat_take_bit_less: "unat (take_bit n (w :: 'a::len word)) < 2 ^ n"
proof -
  have "unat (take_bit n w) = take_bit n (unat w)" by (simp add: unsigned_take_bit_eq)
  then show ?thesis using take_bit_nat_less_exp [of n "unat w"] by (simp only:)
qed

lemma f32_val_range: "f32_val w = Finite s q \<Longrightarrow> 0 \<le> q \<and> q < 2 ^ 128"
proof -
  assume a: "f32_val w = Finite s q"
  define e where "e = unat (take_bit 8 (drop_bit 23 w))"
  define m where "m = unat (take_bit 23 w)"
  have m: "m < 2 ^ 23" unfolding m_def
    by (rule unat_take_bit_less)
  have e: "e < 2 ^ 8" unfolding e_def
    by (rule unat_take_bit_less)
  have "2 ^ 23 + m < (2 ^ 24 :: nat)" using m by simp
  then have "(of_nat (2 ^ 23 + m) :: rat) < of_nat (2 ^ 24)" by (simp only: of_nat_less_iff)
  then have mr: "(of_nat (2 ^ 23 + m) :: rat) < 2 ^ 24" by simp
  have "(of_nat m :: rat) < of_nat (2 ^ 23)" using m by (simp only: of_nat_less_iff)
  then have ms: "(of_nat m :: rat) < 2 ^ 23" by simp
  have m0: "(0::rat) \<le> of_nat (2 ^ 23 + m)" by simp
  consider "e = 0" | "0 < e" "e < 150" | "150 \<le> e" by linarith
  then show ?thesis
  proof cases
    case 1
    then have "q = of_nat m / 2 ^ 149"
      using a by (simp add: f32_val_def Let_def flip: e_def m_def split: if_splits)
    then show ?thesis using ms by (simp add: field_simps)
  next
    case 2
    then have q: "q = of_nat (2 ^ 23 + m) / 2 ^ (150 - e)"
      using a by (simp add: f32_val_def Let_def flip: e_def m_def split: if_splits)
    have "(1::rat) \<le> 2 ^ (150 - e)" by simp
    then have "q \<le> of_nat (2 ^ 23 + m)" unfolding q using m0
      by (metis div_by_1 frac_le order_refl zero_less_one)
    then show ?thesis using mr q by (simp add: q)
  next
    case 3
    then have e255: "e \<noteq> 255" and q: "q = of_nat (2 ^ 23 + m) * 2 ^ (e - 150)"
      using a by (simp_all add: f32_val_def Let_def flip: e_def m_def split: if_splits)
    have "e - 150 \<le> 104" using e e255 by simp
    then have "(2::rat) ^ (e - 150) \<le> 2 ^ 104" by (intro power_increasing) simp_all
    then have "q < 2 ^ 24 * 2 ^ 104" unfolding q using mr
      by (intro mult_less_le_imp_less) simp_all
    then show ?thesis by (simp add: q)
  qed
qed

lemma f16_val_range: "f16_val w = Finite s q \<Longrightarrow> 0 \<le> q \<and> q < 2 ^ 128"
proof -
  assume a: "f16_val w = Finite s q"
  define e where "e = unat (take_bit 5 (drop_bit 10 w))"
  define m where "m = unat (take_bit 10 w)"
  have m: "m < 2 ^ 10" unfolding m_def
    by (rule unat_take_bit_less)
  have e: "e < 2 ^ 5" unfolding e_def
    by (rule unat_take_bit_less)
  have "2 ^ 10 + m < (2 ^ 11 :: nat)" using m by simp
  then have "(of_nat (2 ^ 10 + m) :: rat) < of_nat (2 ^ 11)" by (simp only: of_nat_less_iff)
  then have mr: "(of_nat (2 ^ 10 + m) :: rat) < 2 ^ 11" by simp
  have "(of_nat m :: rat) < of_nat (2 ^ 10)" using m by (simp only: of_nat_less_iff)
  then have ms: "(of_nat m :: rat) < 2 ^ 10" by simp
  have m0: "(0::rat) \<le> of_nat (2 ^ 10 + m)" by simp
  consider "e = 0" | "0 < e" "e < 25" | "25 \<le> e" by linarith
  then show ?thesis
  proof cases
    case 1
    then have "q = of_nat m / 2 ^ 24"
      using a by (simp add: f16_val_def Let_def flip: e_def m_def split: if_splits)
    then show ?thesis using ms by (simp add: field_simps)
  next
    case 2
    then have q: "q = of_nat (2 ^ 10 + m) / 2 ^ (25 - e)"
      using a by (simp add: f16_val_def Let_def flip: e_def m_def split: if_splits)
    have "(1::rat) \<le> 2 ^ (25 - e)" by simp
    then have "q \<le> of_nat (2 ^ 10 + m)" unfolding q using m0
      by (metis div_by_1 frac_le order_refl zero_less_one)
    then show ?thesis using mr q by (simp add: q)
  next
    case 3
    then have e31: "e \<noteq> 31" and q: "q = of_nat (2 ^ 10 + m) * 2 ^ (e - 25)"
      using a by (simp_all add: f16_val_def Let_def flip: e_def m_def split: if_splits)
    have "e - 25 \<le> 117" using e e31 by simp
    then have "(2::rat) ^ (e - 25) \<le> 2 ^ 117" by (intro power_increasing) simp_all
    then have "q < 2 ^ 11 * 2 ^ 117" unfolding q using mr
      by (intro mult_less_le_imp_less) simp_all
    then show ?thesis by (simp add: q)
  qed
qed

lemma length_fmt_6f_any:
  assumes "\<And>s q. v = Finite s q \<Longrightarrow> 0 \<le> q \<and> q < 2 ^ 128"
  shows "length (fmt_6f v) \<le> 47"
proof (cases v)
  case (Finite s q)
  then show ?thesis using assms [OF Finite] by (simp add: length_fmt_6f_finite)
qed (simp_all add: fmt_6f_def)

lemma length_fmt_f32: "length (fmt_6f (f32_val w)) \<le> 47"
  by (rule length_fmt_6f_any) (rule f32_val_range)

lemma length_fmt_f16: "length (fmt_6f (f16_val w)) \<le> 47"
  by (rule length_fmt_6f_any) (rule f16_val_range)

section \<open>The wire layout of the structs\<close>

lemma read_Vector2_eq:
  "read_Vector2 st = (if pos st + 8 \<le> length (data st)
     then Inr (\<lparr>Vector2.X = le_word (field_at st 0 4), Y = le_word (field_at st 4 4)\<rparr>,
               st\<lparr>pos := pos st + 8\<rparr>)
     else Inl StreamExhausted)"
  by (simp add: read_Vector2_def bind_def ret_def read_f32_eq field_at_def ac_simps)

lemma read_Vector2Half_eq:
  "read_Vector2Half st = (if pos st + 4 \<le> length (data st)
     then Inr (\<lparr>Vector2Half.X = le_word (field_at st 0 2), Y = le_word (field_at st 2 2)\<rparr>,
               st\<lparr>pos := pos st + 4\<rparr>)
     else Inl StreamExhausted)"
  by (simp add: read_Vector2Half_def bind_def ret_def read_f16_eq field_at_def ac_simps)

lemma read_Vector3_eq:
  "read_Vector3 st = (if pos st + 12 \<le> length (data st)
     then Inr (\<lparr>Vector3.X = le_word (field_at st 0 4), Y = le_word (field_at st 4 4),
                 Z = le_word (field_at st 8 4)\<rparr>,
               st\<lparr>pos := pos st + 12\<rparr>)
     else Inl StreamExhausted)"
  by (simp add: read_Vector3_def bind_def ret_def read_f32_eq field_at_def ac_simps)

lemma read_Vector4_eq:
  "read_Vector4 st = (if pos st + 16 \<le> length (data st)
     then Inr (\<lparr>Vector4.X = le_word (field_at st 0 4), Y = le_word (field_at st 4 4),
                 Z = le_word (field_at st 8 4), W = le_word (field_at st 12 4)\<rparr>,
               st\<lparr>pos := pos st + 16\<rparr>)
     else Inl StreamExhausted)"
  by (simp add: read_Vector4_def bind_def ret_def read_f32_eq field_at_def ac_simps)

lemma read_BoundingBox_eq:
  "read_BoundingBox st = (if pos st + 24 \<le> length (data st)
     then Inr (\<lparr>Min = \<lparr>Vector3.X = le_word (field_at st 0 4), Y = le_word (field_at st 4 4),
                        Z = le_word (field_at st 8 4)\<rparr>,
                 Max = \<lparr>Vector3.X = le_word (field_at st 12 4), Y = le_word (field_at st 16 4),
                        Z = le_word (field_at st 20 4)\<rparr>\<rparr>,
               st\<lparr>pos := pos st + 24\<rparr>)
     else Inl StreamExhausted)"
  by (simp add: read_BoundingBox_def bind_def ret_def read_Vector3_eq field_at_def ac_simps)

lemma read_BoundingSphere_eq:
  "read_BoundingSphere st = (if pos st + 16 \<le> length (data st)
     then Inr (\<lparr>Center = \<lparr>Vector3.X = le_word (field_at st 0 4), Y = le_word (field_at st 4 4),
                           Z = le_word (field_at st 8 4)\<rparr>,
                 Radius = le_word (field_at st 12 4)\<rparr>,
               st\<lparr>pos := pos st + 16\<rparr>)
     else Inl StreamExhausted)"
  by (simp add: read_BoundingSphere_def bind_def ret_def read_Vector3_eq read_f32_eq field_at_def ac_simps)

lemma read_Normal_eq:
  "read_Normal11_11_10ToString st = (if pos st + 4 \<le> length (data st)
     then Inr (\<lparr>Normal11_11_10ToString.Value = le_word (field_at st 0 4)\<rparr>,
               st\<lparr>pos := pos st + 4\<rparr>)
     else Inl StreamExhausted)"
  by (simp add: read_Normal11_11_10ToString_def bind_def ret_def read_u32_eq field_at_def ac_simps)

lemma length_field_at: "pos st + off + n \<le> length (data st) \<Longrightarrow> length (field_at st off n) = n"
  by (simp add: field_at_def)

text \<open>
  Claim C8. Each struct is read field by field in the order of its declaration, each
  field from the bytes that follow the previous one (no padding), little-endian: Vector2
  is two \<open>f32\<close> (8 bytes), Vector3 three (12), Vector4 four (16), Vector2Half two
  \<open>f16\<close> (4), BoundingBox the Vector3 \<open>Min\<close> then the Vector3 \<open>Max\<close> (24),
  BoundingSphere the Vector3 \<open>Center\<close> then the \<open>f32\<close> \<open>Radius\<close> (16), and the packed
  normal one \<open>u32\<close> (4). The read succeeds exactly when that many bytes are left, and
  then the cursor has advanced by the total width.
\<close>

theorem C8_wire_layout:
  "read_Vector2 st = (if pos st + 8 \<le> length (data st)
     then Inr (\<lparr>Vector2.X = le_word (field_at st 0 4), Y = le_word (field_at st 4 4)\<rparr>,
               st\<lparr>pos := pos st + 8\<rparr>)
     else Inl StreamExhausted)
   \<and> read_Vector3 st = (if pos st + 12 \<le> length (data st)
     then Inr (\<lparr>Vector3.X = le_word (field_at st 0 4), Y = le_word (field_at st 4 4),
                 Z = le_word (field_at st 8 4)\<rparr>,
               st\<lparr>pos := pos st + 12\<rparr>)
     else Inl StreamExhausted)
   \<and> read_Vector4 st = (if pos st + 16 \<le> length (data st)
     then Inr (\<lparr>Vector4.X = le_word (field_at st 0 4), Y = le_word (field_at st 4 4),
                 Z = le_word (field_at st 8 4), W = le_word (field_at st 12 4)\<rparr>,
               st\<lparr>pos := pos st + 16\<rparr>)
     else Inl StreamExhausted)
   \<and> read_Vector2Half st = (if pos st + 4 \<le> length (data st)
     then Inr (\<lparr>Vector2Half.X = le_word (field_at st 0 2), Y = le_word (field_at st 2 2)\<rparr>,
               st\<lparr>pos := pos st + 4\<rparr>)
     else Inl StreamExhausted)
   \<and> read_BoundingBox st = (if pos st + 24 \<le> length (data st)
     then Inr (\<lparr>Min = \<lparr>Vector3.X = le_word (field_at st 0 4), Y = le_word (field_at st 4 4),
                        Z = le_word (field_at st 8 4)\<rparr>,
                 Max = \<lparr>Vector3.X = le_word (field_at st 12 4), Y = le_word (field_at st 16 4),
                        Z = le_word (field_at st 20 4)\<rparr>\<rparr>,
               st\<lparr>pos := pos st + 24\<rparr>)
     else Inl StreamExhausted)
   \<and> read_BoundingSphere st = (if pos st + 16 \<le> length (data st)
     then Inr (\<lparr>Center = \<lparr>Vector3.X = le_word (field_at st 0 4), Y = le_word (field_at st 4 4),
                           Z = le_word (field_at st 8 4)\<rparr>,
                 Radius = le_word (field_at st 12 4)\<rparr>,
               st\<lparr>pos := pos st + 16\<rparr>)
     else Inl StreamExhausted)
   \<and> read_Normal11_11_10ToString st = (if pos st + 4 \<le> length (data st)
     then Inr (\<lparr>Normal11_11_10ToString.Value = le_word (field_at st 0 4)\<rparr>,
               st\<lparr>pos := pos st + 4\<rparr>)
     else Inl StreamExhausted)"
  by (intro conjI)
    (rule read_Vector2_eq read_Vector3_eq read_Vector4_eq read_Vector2Half_eq
      read_BoundingBox_eq read_BoundingSphere_eq read_Normal_eq)+

text \<open>
  The scenario of the spec: the bytes \<open>00 00 80 3F 00 00 00 40\<close> read as a Vector2 at
  offset 0 give X = 1.0 and Y = 2.0 and leave the cursor at 8.
\<close>

theorem C8_wire_layout_witness:
  "read_Vector2 \<lparr>data = [0, 0, 0x80, 0x3F, 0, 0, 0, 0x40], pos = 0, seeks = []\<rparr>
     = Inr (\<lparr>Vector2.X = 0x3F800000, Y = 0x40000000\<rparr>,
            \<lparr>data = [0, 0, 0x80, 0x3F, 0, 0, 0, 0x40], pos = 8, seeks = []\<rparr>)
   \<and> f32_val 0x3F800000 = Finite False 1 \<and> f32_val 0x40000000 = Finite False 2"
proof -
  have "f32_val 0x3F800000 = Finite False 1" "f32_val 0x40000000 = Finite False 2"
    by (simp_all add: f32_val_def Let_def)
  then show ?thesis
    using C8_wire_layout [of "\<lparr>data = [0, 0, 0x80, 0x3F, 0, 0, 0, 0x40], pos = 0, seeks = []\<rparr>"]
    by (simp add: field_at_def)
qed

section \<open>The formatters\<close>

lemma Vector2ToString_eq:
  "Vector2ToString v = Inr (''['' @ fmt_6f (f32_val (Vector2.X v))
     @ '', '' @ fmt_6f (f32_val (Vector2.Y v)) @ '']'')"
  using length_fmt_f32 [of "Vector2.X v"] length_fmt_f32 [of "Vector2.Y v"]
  by (simp add: Vector2ToString_def SPrintf_def)

lemma Vector2HalfToString_eq:
  "Vector2HalfToString v = Inr (''['' @ fmt_6f (f16_val (Vector2Half.X v))
     @ '', '' @ fmt_6f (f16_val (Vector2Half.Y v)) @ '']'')"
  using length_fmt_f16 [of "Vector2Half.X v"] length_fmt_f16 [of "Vector2Half.Y v"]
  by (simp add: Vector2HalfToString_def SPrintf_def)

lemma Vector3ToString_eq:
  "Vector3ToString v = Inr (''['' @ fmt_6f (f32_val (Vector3.X v))
     @ '', '' @ fmt_6f (f32_val (Vector3.Y v))
     @ '', '' @ fmt_6f (f32_val (Vector3.Z v)) @ '']'')"
  using length_fmt_f32 [of "Vector3.X v"] length_fmt_f32 [of "Vector3.Y v"]
    length_fmt_f32 [of "Vector3.Z v"]
  by (simp add: Vector3ToString_def SPrintf_def)

lemma Vector4ToString_eq:
  "Vector4ToString v = Inr (''['' @ fmt_6f (f32_val (Vector4.X v))
     @ '', '' @ fmt_6f (f32_val (Vector4.Y v))
     @ '', '' @ fmt_6f (f32_val (Vector4.Z v))
     @ '', '' @ fmt_6f (f32_val (Vector4.W v)) @ '']'')"
  using length_fmt_f32 [of "Vector4.X v"] length_fmt_f32 [of "Vector4.Y v"]
    length_fmt_f32 [of "Vector4.Z v"] length_fmt_f32 [of "Vector4.W v"]
  by (simp add: Vector4ToString_def SPrintf_def)

lemma BoundingSphereToString_eq:
  "BoundingSphereToString v = Inr (''['' @ fmt_6f (f32_val (Vector3.X (Center v)))
     @ '', '' @ fmt_6f (f32_val (Vector3.Y (Center v)))
     @ '', '' @ fmt_6f (f32_val (Vector3.Z (Center v)))
     @ ''] '' @ fmt_6f (f32_val (Radius v)))"
  using length_fmt_f32 [of "Vector3.X (Center v)"] length_fmt_f32 [of "Vector3.Y (Center v)"]
    length_fmt_f32 [of "Vector3.Z (Center v)"] length_fmt_f32 [of "Radius v"]
  by (simp add: BoundingSphereToString_def SPrintf_def)

lemma BoundingBoxToString_eq:
  "BoundingBoxToString v
     = (if length (box_text v) < 255 then Inr (box_text v) else Inl BufferOverflow)"
  by (simp add: BoundingBoxToString_def SPrintf_def box_text_def)

lemma f32_val_examples:
  "f32_val 0 = Finite False 0" "f32_val 0x3F800000 = Finite False 1"
  "f32_val 0x40000000 = Finite False 2" "f32_val 0x7F800000 = Infinity False"
  by (simp_all add: f32_val_def Let_def)

lemma six_decimals_finite: "is_finite c \<Longrightarrow> six_decimals (fmt_6f c)"
  by (cases c) (simp_all add: six_decimals_fmt_6f)

lemma fmt_6f_nonfinite:
  "fmt_6f (Infinity s) = (if s then ''-inf'' else ''inf'')"
  "fmt_6f (NaN s) = (if s then ''-nan'' else ''nan'')"
  by (simp_all add: fmt_6f_def)

lemma not_six_decimals_nonfinite: "\<not> is_finite c \<Longrightarrow> \<not> six_decimals (fmt_6f c)"
  by (cases c) (simp_all add: fmt_6f_nonfinite six_decimals_def is_digit_def)

lemma f32_val_special:
  assumes "take_bit 8 (drop_bit 23 w) = 255"
  shows "f32_val w = (if take_bit 23 w = 0 then Infinity (bit w 31) else NaN (bit w 31))"
  by (simp add: f32_val_def Let_def assms unat_eq_0)

lemma f32_val_ordinary:
  assumes "take_bit 8 (drop_bit 23 w) \<noteq> 255"
  shows "is_finite (f32_val w)"
proof -
  have "unat (take_bit 8 (drop_bit 23 w)) \<noteq> unat (255 :: 32 word)"
    using assms by (simp only: word_unat_eq_iff not_False_eq_True)
  then show ?thesis by (simp add: f32_val_def Let_def)
qed

lemma f16_val_special:
  assumes "take_bit 5 (drop_bit 10 h) = 31"
  shows "f16_val h = (if take_bit 10 h = 0 then Infinity (bit h 15) else NaN (bit h 15))"
  by (simp add: f16_val_def Let_def assms unat_eq_0)

lemma f16_val_ordinary:
  assumes "take_bit 5 (drop_bit 10 h) \<noteq> 31"
  shows "is_finite (f16_val h)"
proof -
  have "unat (take_bit 5 (drop_bit 10 h)) \<noteq> unat (31 :: 16 word)"
    using assms by (simp only: word_unat_eq_iff not_False_eq_True)
  then show ?thesis by (simp add: f16_val_def Let_def)
qed

lemma f32_val_nan_examples:
  "f32_val 0xFFC00000 = NaN True" "f32_val 0x7FC00000 = NaN False"
  "f32_val 0xFF800000 = Infinity True"
  by (simp_all add: f32_val_def Let_def)

lemma f16_val_examples:
  "f16_val 0x3C00 = Finite False 1" "f16_val 0xFE00 = NaN True" "f16_val 0x7C00 = Infinity False"
  by (simp_all add: f16_val_def Let_def)

text \<open>
  Claim C7, as amended. Every formatter lays its components out as the claim says:
  a list in square brackets, separated by a comma and a space; the bounding box as the
  list of \<open>Min\<close>, a space and the list of \<open>Max\<close>; the bounding sphere as the list of
  \<open>Center\<close>, a space and \<open>Radius\<close>. Each component is written by \<open>%.6f\<close>: a
  component that is a finite number has exactly six decimals. A component whose
  exponent bits are all ones is an infinity (fraction bits zero) or a NaN (otherwise);
  it has no decimals and is written \<open>inf\<close> or \<open>nan\<close>, after a minus sign when its sign
  bit is set. All formatters but the one of the bounding box always return their
  text; the text of a bounding box is returned when it fits the buffer of 255
  characters. A Vector2 with X = 1.0 and Y = 2.0 formats as \<open>[1.000000, 2.000000]\<close>, the
  packed normal 0 as \<open>[0.000000, 0.000000, 0.000000]\<close>.
\<close>

theorem C7_formatters:
  "Vector2ToString v2 = Inr (''['' @ fmt_6f (f32_val (Vector2.X v2))
       @ '', '' @ fmt_6f (f32_val (Vector2.Y v2)) @ '']'')
   \<and> Vector2HalfToString vh = Inr (''['' @ fmt_6f (f16_val (Vector2Half.X vh))
       @ '', '' @ fmt_6f (f16_val (Vector2Half.Y vh)) @ '']'')
   \<and> Vector3ToString v3 = Inr (''['' @ fmt_6f (f32_val (Vector3.X v3))
       @ '', '' @ fmt_6f (f32_val (Vector3.Y v3))
       @ '', '' @ fmt_6f (f32_val (Vector3.Z v3)) @ '']'')
   \<and> Vector4ToString v4 = Inr (''['' @ fmt_6f (f32_val (Vector4.X v4))
       @ '', '' @ fmt_6f (f32_val (Vector4.Y v4))
       @ '', '' @ fmt_6f (f32_val (Vector4.Z v4))
       @ '', '' @ fmt_6f (f32_val (Vector4.W v4)) @ '']'')
   \<and> BoundingSphereToString bs = Inr (''['' @ fmt_6f (f32_val (Vector3.X (Center bs)))
       @ '', '' @ fmt_6f (f32_val (Vector3.Y (Center bs)))
       @ '', '' @ fmt_6f (f32_val (Vector3.Z (Center bs)))
       @ ''] '' @ fmt_6f (f32_val (Radius bs)))
   \<and> (length (box_text bb) < 255 \<longrightarrow> BoundingBoxToString bb = Inr (box_text bb))
   \<and> ReadNormal11_11_10 pn = Inr (''['' @ fmt_6f (normal_x (Normal11_11_10ToString.Value pn))
       @ '', '' @ fmt_6f (normal_y (Normal11_11_10ToString.Value pn))
       @ '', '' @ fmt_6f (normal_z (Normal11_11_10ToString.Value pn)) @ '']'')
   \<and> (is_finite c \<longrightarrow> six_decimals (fmt_6f c))
   \<and> (\<not> is_finite c \<longrightarrow> \<not> six_decimals (fmt_6f c))
   \<and> fmt_6f (Infinity s) = (if s then ''-inf'' else ''inf'')
   \<and> fmt_6f (NaN s) = (if s then ''-nan'' else ''nan'')
   \<and> (take_bit 8 (drop_bit 23 w) = 255 \<longrightarrow>
        f32_val w = (if take_bit 23 w = 0 then Infinity (bit w 31) else NaN (bit w 31)))
   \<and> (take_bit 8 (drop_bit 23 w) \<noteq> 255 \<longrightarrow> is_finite (f32_val w))
   \<and> (take_bit 5 (drop_bit 10 h) = 31 \<longrightarrow>
        f16_val h = (if take_bit 10 h = 0 then Infinity (bit h 15) else NaN (bit h 15)))
   \<and> (take_bit 5 (drop_bit 10 h) \<noteq> 31 \<longrightarrow> is_finite (f16_val h))
   \<and> Vector2ToString \<lparr>Vector2.X = 0x3F800000, Y = 0x40000000\<rparr> = Inr ''[1.000000, 2.000000]''
   \<and> ReadNormal11_11_10 \<lparr>Normal11_11_10ToString.Value = 0\<rparr>
       = Inr ''[0.000000, 0.000000, 0.000000]''"
proof -
  have box: "length (box_text bb) < 255 \<longrightarrow> BoundingBoxToString bb = Inr (box_text bb)"
    by (simp add: BoundingBoxToString_eq)
  have fin: "is_finite c \<longrightarrow> six_decimals (fmt_6f c)"
    by (simp add: six_decimals_finite)
  have nonfin: "\<not> is_finite c \<longrightarrow> \<not> six_decimals (fmt_6f c)"
    by (simp add: not_six_decimals_nonfinite)
  have w1: "take_bit 8 (drop_bit 23 w) = 255 \<longrightarrow>
        f32_val w = (if take_bit 23 w = 0 then Infinity (bit w 31) else NaN (bit w 31))"
    by (rule impI) (rule f32_val_special)
  have w2: "take_bit 8 (drop_bit 23 w) \<noteq> 255 \<longrightarrow> is_finite (f32_val w)"
    by (rule impI) (rule f32_val_ordinary)
  have h1: "take_bit 5 (drop_bit 10 h) = 31 \<longrightarrow>
        f16_val h = (if take_bit 10 h = 0 then Infinity (bit h 15) else NaN (bit h 15))"
    by (rule impI) (rule f16_val_special)
  have h2: "take_bit 5 (drop_bit 10 h) \<noteq> 31 \<longrightarrow> is_finite (f16_val h)"
    by (rule impI) (rule f16_val_ordinary)
  have ex1: "Vector2ToString \<lparr>Vector2.X = 0x3F800000, Y = 0x40000000\<rparr>
      = Inr ''[1.000000, 2.000000]''"
    by (simp add: Vector2ToString_eq f32_val_examples fmt_6f_one fmt_6f_two)
  have ex2: "ReadNormal11_11_10 \<lparr>Normal11_11_10ToString.Value = 0\<rparr>
      = Inr ''[0.000000, 0.000000, 0.000000]''"
    by (simp add: ReadNormal11_11_10_eq normal_at_zero fmt_6f_zero)
  from Vector2ToString_eq [of v2] Vector2HalfToString_eq [of vh] Vector3ToString_eq [of v3]
    Vector4ToString_eq [of v4] BoundingSphereToString_eq [of bs] box
    ReadNormal11_11_10_eq [of pn] fin nonfin fmt_6f_nonfinite(1) [of s]
    fmt_6f_nonfinite(2) [of s] w1 w2 h1 h2 ex1 ex2
  show ?thesis by blast
qed

text \<open>
  The theorem at concrete inputs: a bounding box that fits the buffer, a finite value, a
  Vector2 of two NaNs of which the first has its sign bit set, and a Vector2Half of an
  infinity and the number 1.
\<close>

theorem C7_formatters_witness:
  "length (box_text \<lparr>Min = \<lparr>Vector3.X = 0, Y = 0, Z = 0\<rparr>,
                       Max = \<lparr>Vector3.X = 0x3F800000, Y = 0x3F800000, Z = 0x40000000\<rparr>\<rparr>) < 255
   \<and> BoundingBoxToString \<lparr>Min = \<lparr>Vector3.X = 0, Y = 0, Z = 0\<rparr>,
                           Max = \<lparr>Vector3.X = 0x3F800000, Y = 0x3F800000, Z = 0x40000000\<rparr>\<rparr>
       = Inr ''[0.000000, 0.000000, 0.000000] [1.000000, 1.000000, 2.000000]''
   \<and> is_finite (Finite True (1049601 / 1048576))
   \<and> six_decimals ''-1.000978''
   \<and> take_bit 8 (drop_bit 23 (0xFFC00000 :: 32 word)) = 255
   \<and> take_bit 8 (drop_bit 23 (0x7FC00000 :: 32 word)) = 255
   \<and> take_bit 8 (drop_bit 23 (0x3F800000 :: 32 word)) \<noteq> 255
   \<and> is_finite (f32_val 0x3F800000)
   \<and> \<not> is_finite (f32_val 0xFFC00000)
   \<and> \<not> six_decimals ''-nan''
   \<and> Vector2ToString \<lparr>Vector2.X = 0xFFC00000, Y = 0x7FC00000\<rparr> = Inr ''[-nan, nan]''
   \<and> take_bit 5 (drop_bit 10 (0x7C00 :: 16 word)) = 31
   \<and> take_bit 5 (drop_bit 10 (0x3C00 :: 16 word)) \<noteq> 31
   \<and> is_finite (f16_val 0x3C00)
   \<and> Vector2HalfToString \<lparr>Vector2Half.X = 0x7C00, Y = 0x3C00\<rparr> = Inr ''[inf, 1.000000]''"
proof -
  define b where "b = \<lparr>Min = \<lparr>Vector3.X = 0, Y = 0, Z = 0\<rparr>,
                       Max = \<lparr>Vector3.X = 0x3F800000, Y = 0x3F800000, Z = 0x40000000\<rparr>\<rparr>"
  define v where "v = \<lparr>Vector2.X = 0xFFC00000, Y = 0x7FC00000\<rparr>"
  define u where "u = \<lparr>Vector2Half.X = 0x7C00, Y = 0x3C00\<rparr>"
  define z3 where "z3 = \<lparr>Vector3.X = 0, Y = 0, Z = 0\<rparr>"
  define z4 where "z4 = \<lparr>Vector4.X = 0, Y = 0, Z = 0, W = 0\<rparr>"
  define zs where "zs = \<lparr>Center = z3, Radius = 0\<rparr>"
  define zn where "zn = \<lparr>Normal11_11_10ToString.Value = 0\<rparr>"
  note T1 = C7_formatters [of v u z3 z4 zs b zn "Finite True (1049601 / 1048576)" True
      "0xFFC00000" "0x7C00"]
  note T2 = C7_formatters [of v u z3 z4 zs b zn "NaN True" False "0x7FC00000" "0x3C00"]
  note T3 = C7_formatters [of v u z3 z4 zs b zn "NaN True" False "0x3F800000" "0x3C00"]
  have t: "box_text b = ''[0.000000, 0.000000, 0.000000] [1.000000, 1.000000, 2.000000]''"
    by (simp add: b_def box_text_def f32_val_examples fmt_6f_zero fmt_6f_one fmt_6f_two)
  have l: "length (box_text b) < 255" by (simp add: t)
  have f: "is_finite (Finite True (1049601 / 1048576))" by simp
  from T1 l f
  have "BoundingBoxToString b = Inr (box_text b)"
    and "six_decimals (fmt_6f (Finite True (1049601 / 1048576)))" by blast+
  then have r: "BoundingBoxToString b
      = Inr ''[0.000000, 0.000000, 0.000000] [1.000000, 1.000000, 2.000000]''"
    and d: "six_decimals ''-1.000978''"
    by (simp_all only: t fmt_6f_min_code)
  have e1: "take_bit 8 (drop_bit 23 (0xFFC00000 :: 32 word)) = 255"
    and e2: "take_bit 8 (drop_bit 23 (0x7FC00000 :: 32 word)) = 255"
    and e3: "take_bit 8 (drop_bit 23 (0x3F800000 :: 32 word)) \<noteq> 255"
    by simp_all
  have m1: "take_bit 23 (0xFFC00000 :: 32 word) \<noteq> 0" "bit (0xFFC00000 :: 32 word) 31"
    and m2: "take_bit 23 (0x7FC00000 :: 32 word) \<noteq> 0" "\<not> bit (0x7FC00000 :: 32 word) 31"
    by simp_all
  from T1 e1 have "f32_val 0xFFC00000
      = (if take_bit 23 (0xFFC00000 :: 32 word) = 0 then Infinity (bit (0xFFC00000 :: 32 word) 31)
         else NaN (bit (0xFFC00000 :: 32 word) 31))" by blast
  then have x: "f32_val 0xFFC00000 = NaN True" using m1 by simp
  from T2 e2 have "f32_val 0x7FC00000
      = (if take_bit 23 (0x7FC00000 :: 32 word) = 0 then Infinity (bit (0x7FC00000 :: 32 word) 31)
         else NaN (bit (0x7FC00000 :: 32 word) 31))" by blast
  then have y: "f32_val 0x7FC00000 = NaN False" using m2 by simp
  from T3 e3 have fo: "is_finite (f32_val 0x3F800000)" by blast
  have nf: "\<not> is_finite (f32_val 0xFFC00000)" by (simp add: x)
  from T1 have "fmt_6f (NaN True) = (if True then ''-nan'' else ''nan'')" by blast
  then have tx: "fmt_6f (NaN True) = ''-nan''" by simp
  from T2 have "fmt_6f (NaN False) = (if False then ''-nan'' else ''nan'')" by blast
  then have ty: "fmt_6f (NaN False) = ''nan''" by simp
  have "\<not> is_finite (NaN True)" by simp
  with T2 have "\<not> six_decimals (fmt_6f (NaN True))" by blast
  then have ns: "\<not> six_decimals ''-nan''" unfolding tx .
  from T1 have "Vector2ToString v = Inr (''['' @ fmt_6f (f32_val (Vector2.X v))
       @ '', '' @ fmt_6f (f32_val (Vector2.Y v)) @ '']'')" by blast
  then have vs: "Vector2ToString v = Inr ''[-nan, nan]''"
    by (simp add: v_def x y tx ty)
  have g1: "take_bit 5 (drop_bit 10 (0x7C00 :: 16 word)) = 31"
    and g2: "take_bit 5 (drop_bit 10 (0x3C00 :: 16 word)) \<noteq> 31"
    and g3: "take_bit 10 (0x7C00 :: 16 word) = 0" "\<not> bit (0x7C00 :: 16 word) 15"
    by simp_all
  from T1 g1 have "f16_val 0x7C00
      = (if take_bit 10 (0x7C00 :: 16 word) = 0 then Infinity (bit (0x7C00 :: 16 word) 15)
         else NaN (bit (0x7C00 :: 16 word) 15))" by blast
  then have hx: "f16_val 0x7C00 = Infinity False" using g3 by simp
  from T2 g2 have hf: "is_finite (f16_val 0x3C00)" by blast
  from T2 have "fmt_6f (Infinity False) = (if False then ''-inf'' else ''inf'')" by blast
  then have ti: "fmt_6f (Infinity False) = ''inf''" by simp
  from T1 have "Vector2HalfToString u = Inr (''['' @ fmt_6f (f16_val (Vector2Half.X u))
       @ '', '' @ fmt_6f (f16_val (Vector2Half.Y u)) @ '']'')" by blast
  then have hs: "Vector2HalfToString u = Inr ''[inf, 1.000000]''"
    by (simp add: u_def hx ti f16_val_examples fmt_6f_one)
  from l r f d e1 e2 e3 fo nf ns vs g1 g2 hf hs show ?thesis
    unfolding b_def v_def u_def by blast
qed

text \<open>
  The claim as stated fails on a component that is not a finite number: the \<open>f32\<close>
  with the bits \<open>0x7F800000\<close> is the positive infinity, and it is written without any
  decimal.
\<close>

theorem C7_counterexample:
  "f32_val 0x7F800000 = Infinity False
   \<and> Vector2ToString \<lparr>Vector2.X = 0x7F800000, Y = 0\<rparr> = Inr ''[inf, 0.000000]''
   \<and> fmt_6f (f32_val 0x7F800000) = ''inf''
   \<and> \<not> six_decimals ''inf''"
proof -
  have a: "fmt_6f (Infinity False) = ''inf''" by (simp add: fmt_6f_def)
  have b: "\<not> six_decimals ''inf''" by (simp add: six_decimals_def is_digit_def)
  have c: "Vector2ToString \<lparr>Vector2.X = 0x7F800000, Y = 0\<rparr> = Inr ''[inf, 0.000000]''"
    by (simp add: Vector2ToString_eq f32_val_examples a fmt_6f_zero)
  from a b c show ?thesis by (simp add: f32_val_examples)
qed

text \<open>
  The hypothesis on the bounding box cannot be dropped: with the largest finite \<open>f32\<close>
  in all six components the text has 289 characters, more than the buffer of the
  formatter holds.
\<close>

lemma f32_val_max: "f32_val 0x7F7FFFFF = Finite False 340282346638528859811704183484516925440"
  by (simp add: f32_val_def Let_def)

lemma fmt_6f_max:
  "fmt_6f (Finite False 340282346638528859811704183484516925440)
     = ''340282346638528859811704183484516925440.000000''"
  using fmt_6f_finite [of 340282346638528859811704183484516925440
      340282346638528859811704183484516925440000000 False]
  by (simp add: dec_digit dec_step dec_pad_6)

lemma box_text_too_long:
  "length (box_text \<lparr>Min = \<lparr>Vector3.X = 0x7F7FFFFF, Y = 0x7F7FFFFF, Z = 0x7F7FFFFF\<rparr>,
                       Max = \<lparr>Vector3.X = 0x7F7FFFFF, Y = 0x7F7FFFFF, Z = 0x7F7FFFFF\<rparr>\<rparr>) = 289"
  by (simp add: box_text_def f32_val_max fmt_6f_max)

end
